theory Spec2Isabelle
  imports Complex_Main "HOL-Library.Word"
begin

section \<open>jpl2mpc: conversion of a Horizons text ephemeris\<close>

text \<open>
  The development follows \<^verbatim>\<open>jpl2mpc.cpp\<close>: the line buffer \<^verbatim>\<open>char buff[200]\<close> is a list of
  bytes that \<^verbatim>\<open>fgets\<close> overwrites from the front, so that what a shorter line leaves behind
  stays readable at the fixed offsets the program uses; the two streams are files with a
  position; every \<^verbatim>\<open>return\<close> and \<^verbatim>\<open>exit\<close> of \<^verbatim>\<open>main\<close> is a value.

  The type \<^verbatim>\<open>double\<close> and the numeric conversions of the C library (\<^verbatim>\<open>atof\<close>, \<^verbatim>\<open>atoi\<close>,
  the \<^verbatim>\<open>%f\<close> conversion of \<^verbatim>\<open>printf\<close>) are not part of the repository. They are a parameter
  \<open>M\<close> of every definition, so that what is proved holds for whatever arithmetic the
  platform supplies.
\<close>

subsection \<open>Bytes and C strings\<close>

abbreviation NUL :: char where "NUL \<equiv> CHR 0x00"
abbreviation NL :: char where "NL \<equiv> CHR 0x0A"
abbreviation SQ :: char where "SQ \<equiv> CHR 0x27"

text \<open>
  The C string that starts at \<^verbatim>\<open>buff + off\<close>: the bytes up to the first NUL. Where no NUL
  follows in the buffer, which only bytes from before the first \<^verbatim>\<open>fgets\<close> can cause, the
  string is taken to end with the buffer.
\<close>

definition cstr_at :: "string \<Rightarrow> nat \<Rightarrow> string" where
  "cstr_at buff off = takeWhile (\<lambda>c. c \<noteq> NUL) (drop off buff)"

definition strlen :: "string \<Rightarrow> nat" where
  "strlen buff = length (cstr_at buff 0)"

text \<open>\<^verbatim>\<open>!memcmp( buff + off, lit, n)\<close>: the \<open>n\<close> bytes are compared whatever they hold.\<close>

definition memcmp_eq :: "string \<Rightarrow> nat \<Rightarrow> string \<Rightarrow> nat \<Rightarrow> bool" where
  "memcmp_eq buff off lit n = (take n (drop off buff) = take n lit)"

text \<open>\<^verbatim>\<open>strstr( hay, needle)\<close> on the C string \<open>hay\<close>: the offset of the first occurrence.\<close>

fun strstr :: "string \<Rightarrow> string \<Rightarrow> nat option" where
  "strstr [] needle = (if needle = [] then Some 0 else None)"
| "strstr (c # cs) needle =
     (if take (length needle) (c # cs) = needle then Some 0
      else map_option Suc (strstr cs needle))"

subsection \<open>The numeric library\<close>

text \<open>
  \<open>d_lit\<close> is the value the compiler gives a floating constant, named by its spelling in
  the source; \<open>fmt_f w p\<close> is the conversion \<^verbatim>\<open>%w.pf\<close>; \<open>atoi\<close> returns a C \<^verbatim>\<open>int\<close>.
\<close>

record 'd numlib =
  d_lit :: "string \<Rightarrow> 'd"
  atof :: "string \<Rightarrow> 'd"
  atoi :: "string \<Rightarrow> 32 word"
  d_of_int :: "int \<Rightarrow> 'd"
  d_add :: "'d \<Rightarrow> 'd \<Rightarrow> 'd"
  d_sub :: "'d \<Rightarrow> 'd \<Rightarrow> 'd"
  d_mul :: "'d \<Rightarrow> 'd \<Rightarrow> 'd"
  d_div :: "'d \<Rightarrow> 'd \<Rightarrow> 'd"
  d_less :: "'d \<Rightarrow> 'd \<Rightarrow> bool"
  fmt_f :: "nat \<Rightarrow> nat \<Rightarrow> 'd \<Rightarrow> string"

subsection \<open>The timestamp test of the scan loop\<close>

text \<open>
  \<^verbatim>\<open>(jd = atof( buff)) > 2000000. && jd < 3000000. && strlen( buff) > 54
     && !memcmp( buff + 17, " = A.D.", 7) && buff[42] == ':' && buff[45] == '.'
     && !memcmp( buff + 50, " TDB", 4)\<close>
\<close>

definition is_timestamp :: "'d numlib \<Rightarrow> string \<Rightarrow> bool" where
  "is_timestamp M buff =
     (let jd = atof M (cstr_at buff 0) in
        d_less M (d_lit M ''2000000.'') jd \<and> d_less M jd (d_lit M ''3000000.'') \<and>
        54 < strlen buff \<and> memcmp_eq buff 17 '' = A.D.'' 7 \<and>
        buff ! 42 = CHR '':'' \<and> buff ! 45 = CHR ''.'' \<and>
        memcmp_eq buff 50 '' TDB'' 4)"

text \<open>
  The same test with every read of the buffer guarded: a read at an offset that is not
  inside the text before the terminating NUL yields \<open>None\<close>. The operands of \<^verbatim>\<open>&&\<close> are
  evaluated left to right and only while the ones before hold.
\<close>

definition peek :: "string \<Rightarrow> nat \<Rightarrow> char option" where
  "peek buff i = (if i < strlen buff then Some (buff ! i) else None)"

definition peek_range :: "string \<Rightarrow> nat \<Rightarrow> nat \<Rightarrow> string option" where
  "peek_range buff off n =
     (if off + n \<le> strlen buff then Some (take n (drop off buff)) else None)"

definition is_timestamp_checked :: "'d numlib \<Rightarrow> string \<Rightarrow> bool option" where
  "is_timestamp_checked M buff =
     (let jd = atof M (cstr_at buff 0) in
      if \<not> d_less M (d_lit M ''2000000.'') jd then Some False
      else if \<not> d_less M jd (d_lit M ''3000000.'') then Some False
      else if \<not> 54 < strlen buff then Some False
      else (case peek_range buff 17 7 of None \<Rightarrow> None
      | Some a \<Rightarrow>
          if a \<noteq> '' = A.D.'' then Some False
          else (case peek buff 42 of None \<Rightarrow> None
          | Some c \<Rightarrow>
              if c \<noteq> CHR '':'' then Some False
              else (case peek buff 45 of None \<Rightarrow> None
              | Some d \<Rightarrow>
                  if d \<noteq> CHR ''.'' then Some False
                  else (case peek_range buff 50 4 of None \<Rightarrow> None
                  | Some b \<Rightarrow> Some (b = '' TDB''))))))"

text \<open>
  The test as the specification words it, on the text of a line: the leading number lies
  strictly between 2,000,000 and 3,000,000, the line is longer than 54 characters, the
  seven characters at offset 17 are \<^verbatim>\<open>" = A.D."\<close>, the characters at offsets 42 and 45 are
  a colon and a full stop, and the four characters at offset 50 are \<^verbatim>\<open>" TDB"\<close>.
\<close>

definition timestamp_line_spec :: "'d numlib \<Rightarrow> string \<Rightarrow> bool" where
  "timestamp_line_spec M line =
     (d_less M (d_lit M ''2000000.'') (atof M line) \<and>
      d_less M (atof M line) (d_lit M ''3000000.'') \<and>
      54 < length line \<and>
      take 7 (drop 17 line) = '' = A.D.'' \<and>
      line ! 42 = CHR '':'' \<and> line ! 45 = CHR ''.'' \<and>
      take 4 (drop 50 line) = '' TDB'')"

subsection \<open>Reading a line into the buffer\<close>

text \<open>
  \<^verbatim>\<open>fgets( buff, sizeof( buff), ifile)\<close> on the unread remainder of the stream: at most 199
  bytes, ending after the first newline; \<open>None\<close> at the end of the stream. The bytes read
  and a NUL replace the front of the buffer, the rest of the buffer stays.
\<close>

definition line_chunk :: "string \<Rightarrow> string" where
  "line_chunk inp =
     (let w = take 199 inp; t = takeWhile (\<lambda>c. c \<noteq> NL) w
      in if length t < length w then t @ [NL] else t)"

definition fgets :: "string \<Rightarrow> (string \<times> string) option" where
  "fgets inp =
     (if inp = [] then None
      else Some (line_chunk inp, drop (length (line_chunk inp)) inp))"

definition store_line :: "string \<Rightarrow> string \<Rightarrow> string" where
  "store_line chunk buff = chunk @ NUL # drop (Suc (length chunk)) buff"

subsection \<open>The name table\<close>

definition look_up_name :: "int \<Rightarrow> string" where
  "look_up_name idx =
     (if idx = -21 then ''SOHO''
      else if idx = -48 then ''Hubble Space Telescope''
      else if idx = -82 then ''Cassini''
      else if idx = -234 then ''STEREO-A''
      else if idx = -235 then ''STEREO-B''
      else if idx = -144 then ''Solar Orbiter''
      else if idx = -95 then ''TESS = 2018-038A = NORAD 43435''
      else if idx = -79 then ''Spitzer Space Telescope''
      else if idx = -96 then ''Parker Space Probe''
      else if idx = -98 then ''New Horizons''
      else if idx = -151 then ''Chandra = 1999-040B = NORAD 25867''
      else if idx = -163 then ''WISE''
      else if idx = -139479 then ''Gaia = 2013-074A = NORAD 39479''
      else if idx = -9901491 then ''Tianwen-1 = 2020-049A = NORAD 45935''
      else if idx = -37 then ''Hayabusa 2 = 2014-076A = NORAD 40319''
      else [])"

subsection \<open>Coordinate lines\<close>

text \<open>
  \<^verbatim>\<open>get_coords_from_buff\<close>: the layout is chosen from the bytes at offsets 1 and 2 of the
  buffer, the three fields are converted by \<^verbatim>\<open>atof\<close> from the chosen offsets, and an
  ecliptic triple is rotated. The function returns the array \<^verbatim>\<open>coords\<close> it fills.
\<close>

definition field_offsets :: "string \<Rightarrow> nat \<times> nat \<times> nat" where
  "field_offsets buff =
     (if buff ! 1 = CHR ''X'' \<or> buff ! 2 = CHR ''X'' then (4, 30, 56) else (1, 24, 47))"

definition sin_obliq_2000 :: "'d numlib \<Rightarrow> 'd" where
  "sin_obliq_2000 M = d_lit M ''0.397777155931913701597179975942380896684''"

definition cos_obliq_2000 :: "'d numlib \<Rightarrow> 'd" where
  "cos_obliq_2000 M = d_lit M ''0.917482062069181825744000384639406458043''"

definition rotate_to_equatorial :: "'d numlib \<Rightarrow> 'd \<times> 'd \<times> 'd \<Rightarrow> 'd \<times> 'd \<times> 'd" where
  "rotate_to_equatorial M c =
     (case c of (c0, c1, c2) \<Rightarrow>
        (let temp = d_add M (d_mul M c2 (cos_obliq_2000 M)) (d_mul M c1 (sin_obliq_2000 M))
         in (c0, d_sub M (d_mul M c1 (cos_obliq_2000 M)) (d_mul M c2 (sin_obliq_2000 M)), temp)))"

definition raw_coords :: "'d numlib \<Rightarrow> string \<Rightarrow> 'd \<times> 'd \<times> 'd" where
  "raw_coords M buff =
     (case field_offsets buff of (xloc, yloc, zloc) \<Rightarrow>
        (atof M (cstr_at buff xloc), atof M (cstr_at buff yloc), atof M (cstr_at buff zloc)))"

definition get_coords_from_buff :: "'d numlib \<Rightarrow> string \<Rightarrow> bool \<Rightarrow> 'd \<times> 'd \<times> 'd" where
  "get_coords_from_buff M buff is_ecl =
     (if is_ecl then rotate_to_equatorial M (raw_coords M buff) else raw_coords M buff)"

subsection \<open>Streams\<close>

text \<open>
  A stream holds its bytes and a position; a write replaces what lies under it and extends
  the stream at its end. \<^verbatim>\<open>ofile\<close> is the standard output unless a second argument names a
  file, so the two may be one stream. \<^verbatim>\<open>fseek( f, 0L, SEEK_SET)\<close>, whose result the program
  does not look at, is taken to succeed.
\<close>

datatype stream = Stdout | Outfile

record cfile =
  data :: string
  pos :: nat

definition fput :: "cfile \<Rightarrow> string \<Rightarrow> cfile" where
  "fput f str =
     \<lparr>data = take (pos f) (data f) @ str @ drop (pos f + length str) (data f),
      pos = pos f + length str\<rparr>"

definition rewind :: "cfile \<Rightarrow> cfile" where
  "rewind f = f\<lparr>pos := 0\<rparr>"

subsection \<open>The variables of main\<close>

record 'd state =
  ifile :: string
  ofile :: stream
  streams :: "stream \<Rightarrow> cfile"
  buff :: string
  n_written :: "32 word"
  jd0 :: 'd
  step_size :: 'd
  frac_jd0 :: 'd
  int_jd0 :: "32 word"
  state_vectors :: bool
  is_equatorial :: bool
  is_ecliptical :: bool
  in_km_s :: bool
  object_name :: string

definition fprintf :: "stream \<Rightarrow> string \<Rightarrow> 'd state \<Rightarrow> 'd state" where
  "fprintf f str s = s\<lparr>streams := (streams s)(f := fput (streams s f) str)\<rparr>"

definition printf :: "string \<Rightarrow> 'd state \<Rightarrow> 'd state" where
  "printf str s = fprintf Stdout str s"

definition fseek0 :: "stream \<Rightarrow> 'd state \<Rightarrow> 'd state" where
  "fseek0 f s = s\<lparr>streams := (streams s)(f := rewind (streams s f))\<rparr>"

definition read_line :: "string \<Rightarrow> string \<Rightarrow> 'd state \<Rightarrow> 'd state" where
  "read_line chunk rest s = s\<lparr>buff := store_line chunk (buff s), ifile := rest\<rparr>"

subsection \<open>Formatting\<close>

definition digit_char :: "int \<Rightarrow> char" where
  "digit_char d = ''0123456789'' ! nat d"

fun dec_digits :: "int \<Rightarrow> string" where
  "dec_digits n =
     (if n < 10 then [digit_char n] else dec_digits (n div 10) @ [digit_char (n mod 10)])"

definition pad_left :: "nat \<Rightarrow> string \<Rightarrow> string" where
  "pad_left w str = replicate (w - length str) (CHR '' '') @ str"

text \<open>\<^verbatim>\<open>%4u\<close> of an \<^verbatim>\<open>unsigned\<close>.\<close>

definition fmt_u :: "nat \<Rightarrow> 32 word \<Rightarrow> string" where
  "fmt_u w n = pad_left w (dec_digits (uint n))"

text \<open>\<^verbatim>\<open>header_fmt = "%13.5f %14.10f %4u"\<close>\<close>

definition header :: "'d numlib \<Rightarrow> 'd \<Rightarrow> 'd \<Rightarrow> 32 word \<Rightarrow> string" where
  "header M j st n = fmt_f M 13 5 j @ '' '' @ fmt_f M 14 10 st @ '' '' @ fmt_u 4 n"

text \<open>\<^verbatim>\<open>"%13.5f%16.10f%16.10f%16.10f"\<close> and \<^verbatim>\<open>" %16.12f%16.12f%16.12f\n"\<close>\<close>

definition position_record :: "'d numlib \<Rightarrow> 'd \<Rightarrow> 'd \<times> 'd \<times> 'd \<Rightarrow> string" where
  "position_record M jd c =
     (case c of (c0, c1, c2) \<Rightarrow>
        fmt_f M 13 5 jd @ fmt_f M 16 10 c0 @ fmt_f M 16 10 c1 @ fmt_f M 16 10 c2)"

definition velocity_record :: "'d numlib \<Rightarrow> 'd \<times> 'd \<times> 'd \<Rightarrow> string" where
  "velocity_record M c =
     (case c of (c0, c1, c2) \<Rightarrow>
        '' '' @ fmt_f M 16 12 c0 @ fmt_f M 16 12 c1 @ fmt_f M 16 12 c2 @ [NL])"

subsection \<open>Units\<close>

definition AU_IN_KM :: "'d numlib \<Rightarrow> 'd" where
  "AU_IN_KM M = d_lit M ''1.495978707e+8''"

definition seconds_per_day :: "'d numlib \<Rightarrow> 'd" where
  "seconds_per_day M = d_mul M (d_mul M (d_lit M ''24.'') (d_lit M ''60.'')) (d_lit M ''60.'')"

text \<open>\<^verbatim>\<open>if( in_km_s) for( i = 0; i < 3; i++) coords[i] /= AU_IN_KM;\<close>\<close>

definition scale_position :: "'d numlib \<Rightarrow> bool \<Rightarrow> 'd \<times> 'd \<times> 'd \<Rightarrow> 'd \<times> 'd \<times> 'd" where
  "scale_position M km c =
     (case c of (c0, c1, c2) \<Rightarrow>
        if km then (d_div M c0 (AU_IN_KM M), d_div M c1 (AU_IN_KM M), d_div M c2 (AU_IN_KM M))
        else (c0, c1, c2))"

text \<open>\<^verbatim>\<open>if( in_km_s) for( i = 0; i < 3; i++) coords[i] *= seconds_per_day / AU_IN_KM;\<close>\<close>

definition scale_velocity :: "'d numlib \<Rightarrow> bool \<Rightarrow> 'd \<times> 'd \<times> 'd \<Rightarrow> 'd \<times> 'd \<times> 'd" where
  "scale_velocity M km c =
     (case c of (c0, c1, c2) \<Rightarrow>
        if km then
          (d_mul M c0 (d_div M (seconds_per_day M) (AU_IN_KM M)),
           d_mul M c1 (d_div M (seconds_per_day M) (AU_IN_KM M)),
           d_mul M c2 (d_div M (seconds_per_day M) (AU_IN_KM M)))
        else (c0, c1, c2))"

subsection \<open>One sample\<close>

definition frame_message :: string where
  "frame_message =
     ''Input coordinates must be in the Earth mean equator and equinox'' @ [NL] @
     ''or in J2000 ecliptic coordinates'' @ [NL]"

definition truncated_message :: string where
  "truncated_message = ''Failed to get data from input file'' @ [NL]"

text \<open>
  Lines 157 to 169, with the timestamp line in the buffer: the first sample fixes the epoch
  and ends the first line of the output, the second one fixes the step. The difference
  \<^verbatim>\<open>atoi( buff) - int_jd0\<close> is a difference of two \<^verbatim>\<open>int\<close>, taken in 32 bits before it is
  converted.
\<close>

definition note_epoch :: "'d numlib \<Rightarrow> 'd \<Rightarrow> 'd state \<Rightarrow> 'd state" where
  "note_epoch M jd s =
     (if n_written s = 0 then
        fprintf (ofile s)
          (if object_name s = [] then [NL]
           else '' (500) Geocentric: '' @ object_name s @ [NL])
          (s\<lparr>jd0 := jd,
             int_jd0 := atoi M (cstr_at (buff s) 0),
             frac_jd0 := atof M (cstr_at (buff s) 7)\<rparr>)
      else if n_written s = 1 then
        s\<lparr>step_size :=
             d_add M (d_sub M (atof M (cstr_at (buff s) 7)) (frac_jd0 s))
                     (d_of_int M (sint (atoi M (cstr_at (buff s) 0) - int_jd0 s)))\<rparr>
      else s)"

text \<open>
  Lines 148 to 197, the body run for a timestamp line. \<open>Inl (c, s)\<close> is \<^verbatim>\<open>return( c)\<close> from
  \<^verbatim>\<open>main\<close> in the state \<open>s\<close>.
\<close>

definition sample_step :: "'d numlib \<Rightarrow> 'd state \<Rightarrow> (int \<times> 'd state) + 'd state" where
  "sample_step M s =
     (let jd = atof M (cstr_at (buff s) 0) in
      if is_equatorial s = is_ecliptical s then Inl (- 1, printf frame_message s)
      else
        (let s1 = note_epoch M jd s in
         case fgets (ifile s1) of
           None \<Rightarrow> Inl (- 2, printf truncated_message s1)
         | Some (chunk, rest) \<Rightarrow>
             (let s2 = read_line chunk rest s1;
                  coords = scale_position M (in_km_s s2)
                             (get_coords_from_buff M (buff s2) (is_ecliptical s2));
                  s3 = fprintf (ofile s2) (position_record M jd coords) s2
              in if \<not> state_vectors s3 then
                   Inr ((fprintf (ofile s3) [NL] s3)\<lparr>n_written := n_written s3 + 1\<rparr>)
                 else
                   (case fgets (ifile s3) of
                      None \<Rightarrow> Inl (- 2, printf truncated_message s3)
                    | Some (chunk2, rest2) \<Rightarrow>
                        (let s4 = read_line chunk2 rest2 s3;
                             vel = scale_velocity M (in_km_s s4)
                                     (get_coords_from_buff M (buff s4) (is_ecliptical s4));
                             s5 = fprintf (ofile s4) (velocity_record M vel) s4
                         in Inr (s5\<lparr>n_written := n_written s5 + 1\<rparr>))))))"

subsection \<open>Header lines of the report\<close>

text \<open>Lines 199 to 219: the chain of tests on a line that is not a timestamp line.\<close>

definition detect_step :: "'d numlib \<Rightarrow> 'd state \<Rightarrow> 'd state" where
  "detect_step M s =
     (let b = buff s; line = cstr_at b 0 in
      if memcmp_eq b 0 ''   VX    VY    VZ'' 17 then s\<lparr>state_vectors := True\<rparr>
      else if strstr line ''Earth Mean Equator and Equinox'' \<noteq> None
        then s\<lparr>is_equatorial := True\<rparr>
      else if strstr line ''Reference frame : ICRF'' \<noteq> None
        then s\<lparr>is_equatorial := True\<rparr>
      else if strstr line ''Ecliptic and Mean Equinox of Reference Epoch'' \<noteq> None
        then s\<lparr>is_ecliptical := True\<rparr>
      else if strstr line ''Reference frame : Ecliptic of J2000'' \<noteq> None
        then s\<lparr>is_ecliptical := True\<rparr>
      else if memcmp_eq b 0 '' Revised:'' 9
        then s\<lparr>object_name := look_up_name (sint (atoi M (cstr_at b 71)))\<rparr>
      else if memcmp_eq b 0 ''Target body name:'' 17
        then (case strstr line ''(-'' of
                None \<Rightarrow> s
              | Some i \<Rightarrow> s\<lparr>object_name := look_up_name (sint (atoi M (cstr_at b (i + 1))))\<rparr>)
      else if memcmp_eq b 0 ''Output units    : KM-S'' 22 then s\<lparr>in_km_s := True\<rparr>
      else s)"

subsection \<open>The scan loop\<close>

lemma line_chunk_nonempty: "inp \<noteq> [] \<Longrightarrow> line_chunk inp \<noteq> []"
  by (cases inp) (auto simp: line_chunk_def Let_def)

lemma line_chunk_length: "length (line_chunk inp) \<le> length inp"
proof -
  let ?w = "take 199 inp"
  let ?t = "takeWhile (\<lambda>c. c \<noteq> NL) ?w"
  have "length ?t \<le> length ?w" by (rule length_takeWhile_le)
  moreover have "length ?w \<le> length inp" by simp
  ultimately show ?thesis by (auto simp: line_chunk_def Let_def)
qed

lemma fgets_shorter: "fgets inp = Some (chunk, rest) \<Longrightarrow> length rest < length inp"
  using line_chunk_nonempty [of inp]
  by (cases inp) (auto simp: fgets_def split: if_splits)

lemma takeWhile_take_prefix:
  "takeWhile P (take n xs) = take (length (takeWhile P (take n xs))) xs"
proof -
  let ?t = "takeWhile P (take n xs)"
  have k: "length ?t \<le> n"
    using length_takeWhile_le [of P "take n xs"] by simp
  have "?t = take (length ?t) (take n xs)" by (rule takeWhile_eq_take)
  also have "\<dots> = take (min (length ?t) n) xs" by (rule take_take)
  also have "\<dots> = take (length ?t) xs" using k by (simp only: min_absorb1)
  finally show ?thesis .
qed

lemma line_chunk_prefix: "line_chunk inp = take (length (line_chunk inp)) inp"
proof -
  let ?w = "take 199 inp"
  let ?t = "takeWhile (\<lambda>c. c \<noteq> NL) ?w"
  have t: "?t = take (length ?t) inp" by (rule takeWhile_take_prefix)
  show ?thesis
  proof (cases "length ?t < length ?w")
    case True
    then have "?w ! length ?t = NL"
      using nth_length_takeWhile [of "\<lambda>c. c \<noteq> NL" ?w] by simp
    moreover have l: "length ?t < length inp" using True by simp
    moreover have "?w ! length ?t = inp ! length ?t" using True by simp
    ultimately have "take (Suc (length ?t)) inp = take (length ?t) inp @ [NL]"
      by (simp only: take_Suc_conv_app_nth)
    then have "?t @ [NL] = take (length (?t @ [NL])) inp" using t by simp
    moreover have "line_chunk inp = ?t @ [NL]"
      using True by (simp add: line_chunk_def Let_def)
    ultimately show ?thesis by (simp only:)
  next
    case False
    then have "line_chunk inp = ?t" by (simp add: line_chunk_def Let_def)
    then show ?thesis using t by (simp only:)
  qed
qed

lemma fgets_chunk_rest: "fgets inp = Some (chunk, rest) \<Longrightarrow> inp = chunk @ rest"
proof -
  assume a: "fgets inp = Some (chunk, rest)"
  then have c: "chunk = line_chunk inp" and r: "rest = drop (length (line_chunk inp)) inp"
    by (auto simp: fgets_def split: if_splits)
  have "take (length (line_chunk inp)) inp @ drop (length (line_chunk inp)) inp = inp"
    by (rule append_take_drop_id)
  then show ?thesis using c r line_chunk_prefix [of inp] by (simp only:)
qed

lemma sample_step_ifile_le:
  "sample_step M s = Inr s' \<Longrightarrow> length (ifile s') \<le> length (ifile s)"
  by (auto simp: sample_step_def Let_def note_epoch_def fprintf_def read_line_def
           split: if_splits option.splits dest!: fgets_shorter)

lemma detect_step_ifile: "ifile (detect_step M s) = ifile s"
  by (simp add: detect_step_def Let_def split: option.splits)

text \<open>
  \<^verbatim>\<open>while( fgets( buff, sizeof( buff), ifile))\<close> with its body: each turn reads a line and
  either runs the sample body or the chain of header tests.
\<close>

function scan :: "'d numlib \<Rightarrow> 'd state \<Rightarrow> (int \<times> 'd state) + 'd state" where
  "scan M s =
     (case fgets (ifile s) of
        None \<Rightarrow> Inr s
      | Some (chunk, rest) \<Rightarrow>
          if is_timestamp M (buff (read_line chunk rest s)) then
            (case sample_step M (read_line chunk rest s) of
               Inl r \<Rightarrow> Inl r
             | Inr s2 \<Rightarrow> scan M s2)
          else scan M (detect_step M (read_line chunk rest s)))"
  by pat_completeness auto
termination
proof (relation "measure (\<lambda>(M, s). length (ifile s))")
  show "wf (measure (\<lambda>(M :: 'd numlib, s :: 'd state). length (ifile s)))" by simp
next
  fix M :: "'d numlib" and s :: "'d state" and x2 chunk rest s2
  assume "fgets (ifile s) = Some x2" "(chunk, rest) = x2"
    and "sample_step M (read_line chunk rest s) = Inr s2"
  then have "length rest < length (ifile s)" "length (ifile s2) \<le> length rest"
    using fgets_shorter [of "ifile s" chunk rest]
          sample_step_ifile_le [of M "read_line chunk rest s" s2]
    by (auto simp: read_line_def)
  then show "((M, s2), (M, s)) \<in> measure (\<lambda>(M, s). length (ifile s))" by simp
next
  fix M :: "'d numlib" and s :: "'d state" and x2 chunk rest
  assume "fgets (ifile s) = Some x2" "(chunk, rest) = x2"
  then have "length rest < length (ifile s)"
    using fgets_shorter [of "ifile s" chunk rest] by auto
  then show "((M, detect_step M (read_line chunk rest s)), (M, s))
               \<in> measure (\<lambda>(M, s). length (ifile s))"
    by (simp add: detect_step_ifile read_line_def)
qed

declare scan.simps [simp del]

text \<open>
  Lines 224 to 226: the report is read again and copied up to the line that starts with
  \<^verbatim>\<open>$$SOE\<close>; \<^verbatim>\<open>%s\<close> writes the C string in the buffer.
\<close>

function copy_preamble :: "'d state \<Rightarrow> 'd state" where
  "copy_preamble s =
     (case fgets (ifile s) of
        None \<Rightarrow> s
      | Some (chunk, rest) \<Rightarrow>
          if memcmp_eq (buff (read_line chunk rest s)) 0 ''$$SOE'' 5 then read_line chunk rest s
          else copy_preamble
                 (fprintf (ofile s) (cstr_at (buff (read_line chunk rest s)) 0)
                    (read_line chunk rest s)))"
  by pat_completeness auto
termination
proof (relation "measure (\<lambda>s. length (ifile s))")
  show "wf (measure (\<lambda>s :: 'd state. length (ifile s)))" by simp
next
  fix s :: "'d state" and x2 chunk rest
  assume "fgets (ifile s) = Some x2" "(chunk, rest) = x2"
  then have "length rest < length (ifile s)"
    using fgets_shorter [of "ifile s" chunk rest] by auto
  then show "(fprintf (ofile s) (cstr_at (buff (read_line chunk rest s)) 0)
                (read_line chunk rest s), s) \<in> measure (\<lambda>s. length (ifile s))"
    by (simp add: fprintf_def read_line_def)
qed

declare copy_preamble.simps [simp del]

subsection \<open>main\<close>

text \<open>
  What \<^verbatim>\<open>main\<close> gets from outside: its arguments, what the two calls of \<^verbatim>\<open>fopen\<close> give
  (the bytes of the input file, or no file; whether the output file opens), the build date
  \<^verbatim>\<open>__DATE__\<close>, and the 200 bytes the buffer holds before the first line is read.
\<close>

record env =
  argc :: int
  argv :: "string list"
  input_file :: "string option"
  output_opens :: bool
  build_date :: string
  stack_bytes :: string

definition input_bytes :: "env \<Rightarrow> string" where
  "input_bytes e = (case input_file e of None \<Rightarrow> [] | Some d \<Rightarrow> d)"

definition initial_state :: "'d numlib \<Rightarrow> env \<Rightarrow> 'd state" where
  "initial_state M e =
     \<lparr>ifile = input_bytes e,
      ofile = (if 2 < argc e then Outfile else Stdout),
      streams = (\<lambda>f. \<lparr>data = [], pos = 0\<rparr>),
      buff = stack_bytes e,
      n_written = 0,
      jd0 = d_lit M ''0.'',
      step_size = d_lit M ''0.'',
      frac_jd0 = d_lit M ''0.'',
      int_jd0 = 0,
      state_vectors = False,
      is_equatorial = False,
      is_ecliptical = False,
      in_km_s = False,
      object_name = []\<rparr>"

definition usage_text :: string where
  "usage_text =
     [NL] @ ''JPL2MPC takes input ephemeri(de)s generated by HORIZONS  and,'' @ [NL] @
     ''produces file(s) suitable for use in DASO or eph2tle.  The name of'' @ [NL] @
     ''the input ephemeris must be provided as a command-line argument.'' @ [NL] @
     ''For example:'' @ [NL] @
     [NL] @ ''jpl2mpc gaia.txt'' @ [NL, NL] @
     ''The JPL ephemeris must be in text form (can use the '' @ [SQ] @ ''download/save'' @
       [SQ, NL] @
     ''option for this).'' @ [NL] @
     ''   The bottom of '' @ [SQ] @ ''jpl2mpc.cpp'' @ [SQ] @
       '' shows how to submit a job via e-mail'' @ [NL] @
     ''to the Horizons server that will get you an ephemeris in the necessary'' @ [NL] @
     ''format,  or how to get such ephemerides using a URL.'' @ [NL]"

definition no_input_message :: "string \<Rightarrow> string" where
  "no_input_message name =
     [NL] @ ''Couldn'' @ [SQ] @ ''t open the Horizons file '' @ [SQ] @ name @ [SQ, NL]"

definition no_output_message :: "string \<Rightarrow> string" where
  "no_output_message name =
     [NL] @ ''Couldn'' @ [SQ] @ ''t open the output file '' @ [SQ] @ name @ [SQ, NL]"

definition trailer :: "string \<Rightarrow> string" where
  "trailer date =
     [NL, NL] @ ''Created from Horizons data by '' @ [SQ] @ ''jpl2mpc'' @ [SQ] @
     '', ver '' @ date @ [NL]"

text \<open>
  Lines 221 to 238, after the scan: the trailer, the copy of the report up to \<^verbatim>\<open>$$SOE\<close>, and
  the header written again at the start of the output.
\<close>

definition finish :: "'d numlib \<Rightarrow> env \<Rightarrow> 'd state \<Rightarrow> 'd state" where
  "finish M e s =
     (let s1 = fprintf (ofile s) (trailer (build_date e)) s;
          s2 = copy_preamble (s1\<lparr>ifile := input_bytes e\<rparr>);
          s3 = fseek0 (ofile s2) s2
      in fprintf (ofile s3) (header M (jd0 s3) (step_size s3) (n_written s3)) s3)"

text \<open>Lines 139 to 238: the provisional header, the scan, and the end of the run.\<close>

definition convert :: "'d numlib \<Rightarrow> env \<Rightarrow> 'd state \<Rightarrow> int \<times> 'd state" where
  "convert M e s =
     (let s1 = fprintf (ofile s) (header M (d_lit M ''0.'') (d_lit M ''0.'') 0) s;
          s2 = fprintf (ofile s1) '' 0,1,1'' s1
      in case scan M s2 of
           Inl r \<Rightarrow> r
         | Inr s3 \<Rightarrow> (0, finish M e s3))"

text \<open>
  Lines 106 to 137: \<^verbatim>\<open>ifile\<close> is null without a first argument or when the file does not
  open, \<^verbatim>\<open>ofile\<close> is null when a second argument names a file that does not open. The
  result is the exit code of the process and the final state.
\<close>

definition main :: "'d numlib \<Rightarrow> env \<Rightarrow> int \<times> 'd state" where
  "main M e =
     (let ifile_null = (if 1 < argc e then input_file e = None else True);
          ofile_null = (if 2 < argc e then output_opens e = False else False);
          s0 = initial_state M e;
          s1 = (if 1 < argc e \<and> ifile_null then printf (no_input_message (argv e ! 1)) s0
                else s0);
          s2 = (if ofile_null then printf (no_output_message (argv e ! 2)) s1 else s1)
      in if argc e < 2 \<or> ifile_null \<or> ofile_null then (- 1, printf usage_text s2)
         else convert M e s2)"

subsection \<open>An exact arithmetic for examples\<close>

text \<open>
  One instance of the numeric library, used where a statement is evaluated on a concrete
  report: numbers are rationals, \<^verbatim>\<open>atof\<close> reads a decimal number with an optional
  exponent, and \<^verbatim>\<open>%w.pf\<close> rounds to \<open>p\<close> decimals, ties to even. On the numbers of the
  examples, which binary floating point represents exactly, it agrees with IEEE doubles.
\<close>

definition is_space :: "char \<Rightarrow> bool" where
  "is_space c = (c = CHR '' '' \<or> c = CHR 0x09 \<or> c = NL \<or> c = CHR 0x0B \<or> c = CHR 0x0C
                 \<or> c = CHR 0x0D)"

definition is_digit :: "char \<Rightarrow> bool" where
  "is_digit c = (48 \<le> (of_char c :: int) \<and> (of_char c :: int) \<le> 57)"

definition digit_value :: "char \<Rightarrow> int" where
  "digit_value c = of_char c - 48"

fun digits_value :: "int \<Rightarrow> string \<Rightarrow> int" where
  "digits_value acc [] = acc"
| "digits_value acc (c # cs) = digits_value (10 * acc + digit_value c) cs"

definition split_sign :: "string \<Rightarrow> bool \<times> string" where
  "split_sign str =
     (case str of
        [] \<Rightarrow> (False, [])
      | c # cs \<Rightarrow> if c = CHR ''-'' then (True, cs) else if c = CHR ''+'' then (False, cs)
                  else (False, c # cs))"

definition pow10 :: "int \<Rightarrow> rat" where
  "pow10 k = (if 0 \<le> k then 10 ^ nat k else 1 / 10 ^ nat (- k))"

definition exponent_part :: "string \<Rightarrow> int" where
  "exponent_part str =
     (case str of
        [] \<Rightarrow> 0
      | c # cs \<Rightarrow>
          if c = CHR ''e'' \<or> c = CHR ''E'' then
            (case split_sign cs of (neg, ds) \<Rightarrow>
               (let ex = takeWhile is_digit ds
                in if ex = [] then 0
                   else if neg then - digits_value 0 ex else digits_value 0 ex))
          else 0)"

definition atof_exact :: "string \<Rightarrow> rat" where
  "atof_exact str =
     (case split_sign (dropWhile is_space str) of (neg, body) \<Rightarrow>
        (let ip = takeWhile is_digit body;
             r1 = dropWhile is_digit body;
             fp = (case r1 of [] \<Rightarrow> []
                   | c # cs \<Rightarrow> if c = CHR ''.'' then takeWhile is_digit cs else []);
             r2 = (case r1 of [] \<Rightarrow> []
                   | c # cs \<Rightarrow> if c = CHR ''.'' then dropWhile is_digit cs else c # cs)
         in if ip = [] \<and> fp = [] then 0
            else (let m = of_int (digits_value 0 (ip @ fp)) * pow10 (- int (length fp))
                          * pow10 (exponent_part r2)
                  in if neg then - m else m)))"

definition atoi_exact :: "string \<Rightarrow> 32 word" where
  "atoi_exact str =
     (case split_sign (dropWhile is_space str) of (neg, body) \<Rightarrow>
        (let v = digits_value 0 (takeWhile is_digit body)
         in word_of_int (if neg then - v else v)))"

definition floor_rat :: "rat \<Rightarrow> int" where
  "floor_rat x = (case quotient_of x of (a, b) \<Rightarrow> a div b)"

definition round_half_even :: "rat \<Rightarrow> int" where
  "round_half_even y =
     (let f = floor_rat y; r = y - of_int f
      in if r < 1 / 2 then f else if 1 / 2 < r then f + 1
         else if even f then f else f + 1)"

definition fmt_f_exact :: "nat \<Rightarrow> nat \<Rightarrow> rat \<Rightarrow> string" where
  "fmt_f_exact w p x =
     (let q = round_half_even (\<bar>x\<bar> * 10 ^ p);
          ip = q div 10 ^ p;
          fp = dec_digits (q mod 10 ^ p)
      in pad_left w
           ((if x < 0 then ''-'' else []) @ dec_digits ip @
            (if p = 0 then [] else ''.'' @ replicate (p - length fp) (CHR ''0'') @ fp)))"

definition exact :: "rat numlib" where
  "exact =
     \<lparr>d_lit = atof_exact, atof = atof_exact, atoi = atoi_exact, d_of_int = of_int,
      d_add = (+), d_sub = (-), d_mul = (*), d_div = (/), d_less = (<),
      fmt_f = fmt_f_exact\<rparr>"

subsection \<open>What a run reads and writes\<close>

text \<open>The stream \<^verbatim>\<open>ofile\<close>, and a stream whose position is its end.\<close>

definition out :: "'d state \<Rightarrow> cfile" where
  "out s = streams s (ofile s)"

definition at_end :: "cfile \<Rightarrow> bool" where
  "at_end f = (pos f = length (data f))"

text \<open>The lines of a stream as successive calls of \<^verbatim>\<open>fgets\<close> deliver them.\<close>

function chunks :: "string \<Rightarrow> string list" where
  "chunks inp = (case fgets inp of None \<Rightarrow> [] | Some (chunk, rest) \<Rightarrow> chunk # chunks rest)"
  by pat_completeness auto
termination
proof (relation "measure length")
  show "wf (measure (length :: string \<Rightarrow> nat))" by simp
next
  fix inp :: string and x2 chunk rest
  assume "fgets inp = Some x2" "(chunk, rest) = x2"
  then show "(rest, inp) \<in> measure length"
    using fgets_shorter [of inp chunk rest] by auto
qed

declare chunks.simps [simp del]

text \<open>
  The timestamp lines that the scan loop meets from a state on, each as the buffer holds it
  when the test succeeds. A line that the sample body reads as a coordinate line is not
  met, and the list ends where the run returns.
\<close>

function stamps :: "'d numlib \<Rightarrow> 'd state \<Rightarrow> string list" where
  "stamps M s =
     (case fgets (ifile s) of
        None \<Rightarrow> []
      | Some (chunk, rest) \<Rightarrow>
          if is_timestamp M (buff (read_line chunk rest s)) then
            buff (read_line chunk rest s) #
              (case sample_step M (read_line chunk rest s) of
                 Inl r \<Rightarrow> []
               | Inr s2 \<Rightarrow> stamps M s2)
          else stamps M (detect_step M (read_line chunk rest s)))"
  by pat_completeness auto
termination
proof (relation "measure (\<lambda>(M, s). length (ifile s))")
  show "wf (measure (\<lambda>(M :: 'd numlib, s :: 'd state). length (ifile s)))" by simp
next
  fix M :: "'d numlib" and s :: "'d state" and x2 chunk rest s2
  assume "fgets (ifile s) = Some x2" "(chunk, rest) = x2"
    and "sample_step M (read_line chunk rest s) = Inr s2"
  then have "length rest < length (ifile s)" "length (ifile s2) \<le> length rest"
    using fgets_shorter [of "ifile s" chunk rest]
          sample_step_ifile_le [of M "read_line chunk rest s" s2]
    by (auto simp: read_line_def)
  then show "((M, s2), (M, s)) \<in> measure (\<lambda>(M, s). length (ifile s))" by simp
next
  fix M :: "'d numlib" and s :: "'d state" and x2 chunk rest
  assume "fgets (ifile s) = Some x2" "(chunk, rest) = x2"
  then have "length rest < length (ifile s)"
    using fgets_shorter [of "ifile s" chunk rest] by auto
  then show "((M, detect_step M (read_line chunk rest s)), (M, s))
               \<in> measure (\<lambda>(M, s). length (ifile s))"
    by (simp add: detect_step_ifile read_line_def)
qed

declare stamps.simps [simp del]

text \<open>The state in which \<^verbatim>\<open>main\<close> enters the scan loop, when both files are open.\<close>

definition scan_start :: "'d numlib \<Rightarrow> env \<Rightarrow> 'd state" where
  "scan_start M e =
     fprintf (ofile (initial_state M e)) '' 0,1,1''
       (fprintf (ofile (initial_state M e)) (header M (d_lit M ''0.'') (d_lit M ''0.'') 0)
          (initial_state M e))"

text \<open>
  What the first sample adds to the first line of the output: the end of the line, after
  the name of the object if one was found.
\<close>

definition epoch_line :: "'d state \<Rightarrow> string" where
  "epoch_line s =
     (if n_written s = 0 then
        (if object_name s = [] then [NL] else '' (500) Geocentric: '' @ object_name s @ [NL])
      else [])"

text \<open>The state after line 180, when the position record of a sample is written.\<close>

definition after_position :: "'d numlib \<Rightarrow> 'd state \<Rightarrow> string \<Rightarrow> string \<Rightarrow> 'd state" where
  "after_position M s c1 r1 =
     (let jd = atof M (cstr_at (buff s) 0);
          s2 = read_line c1 r1 (note_epoch M jd s)
      in fprintf (ofile s)
           (position_record M jd
              (scale_position M (in_km_s s)
                 (get_coords_from_buff M (store_line c1 (buff s)) (is_ecliptical s)))) s2)"

text \<open>
  The text of one sample: the timestamp line is in the buffer, \<open>c1\<close> is the line read next
  and \<open>c2\<close> the one after it.
\<close>

definition sample_text :: "'d numlib \<Rightarrow> 'd state \<Rightarrow> string \<Rightarrow> string \<Rightarrow> string" where
  "sample_text M s c1 c2 =
     epoch_line s @
     position_record M (atof M (cstr_at (buff s) 0))
       (scale_position M (in_km_s s)
          (get_coords_from_buff M (store_line c1 (buff s)) (is_ecliptical s))) @
     (if state_vectors s then
        velocity_record M
          (scale_velocity M (in_km_s s)
             (get_coords_from_buff M (store_line c2 (store_line c1 (buff s)))
                (is_ecliptical s)))
      else [NL])"

text \<open>
  The rotation as the specification words it: \<open>(x, y cos - z sin, y sin + z cos)\<close> with the
  sine and cosine of the obliquity of J2000.
\<close>

definition rotation_spec :: "'d numlib \<Rightarrow> 'd \<times> 'd \<times> 'd \<Rightarrow> 'd \<times> 'd \<times> 'd" where
  "rotation_spec M c =
     (case c of (x, y, z) \<Rightarrow>
        (x,
         d_sub M (d_mul M y (d_lit M ''0.917482062069181825744000384639406458043''))
                 (d_mul M z (d_lit M ''0.397777155931913701597179975942380896684'')),
         d_add M (d_mul M y (d_lit M ''0.397777155931913701597179975942380896684''))
                 (d_mul M z (d_lit M ''0.917482062069181825744000384639406458043''))))"

text \<open>
  The preamble as the specification words it: every line before the first line that
  begins with \<^verbatim>\<open>$$SOE\<close>, each written up to its first NUL.
\<close>

definition preamble_text :: "string \<Rightarrow> string" where
  "preamble_text inp =
     concat (map (takeWhile (\<lambda>c. c \<noteq> NUL))
               (takeWhile (\<lambda>chunk. take 5 chunk \<noteq> ''$$SOE'') (chunks inp)))"

text \<open>Two states agree on the variables that only the sample body writes.\<close>

definition same_epoch :: "'d state \<Rightarrow> 'd state \<Rightarrow> bool" where
  "same_epoch s t =
     (n_written t = n_written s \<and> jd0 t = jd0 s \<and> step_size t = step_size s \<and>
      frac_jd0 t = frac_jd0 s \<and> int_jd0 t = int_jd0 s)"

text \<open>The step as lines 168 and 169 compute it, from two timestamp lines in the buffer.\<close>

definition step_between :: "'d numlib \<Rightarrow> string \<Rightarrow> string \<Rightarrow> 'd" where
  "step_between M b1 b2 =
     d_add M (d_sub M (atof M (cstr_at b2 7)) (atof M (cstr_at b1 7)))
             (d_of_int M (sint (atoi M (cstr_at b2 0) - atoi M (cstr_at b1 0))))"

subsection \<open>Example reports\<close>

text \<open>
  Lines as Horizons writes them, and small reports made of them, for the statements that
  are evaluated on a concrete input.
\<close>

definition blank_buffer :: string where
  "blank_buffer = replicate 200 NUL"

definition frame_line :: string where
  "frame_line = ''Reference frame : ICRF'' @ [NL]"

definition soe_line :: string where
  "soe_line = ''$$SOE'' @ [NL]"

definition eoe_line :: string where
  "eoe_line = ''$$EOE'' @ [NL]"

definition stamp_a :: string where
  "stamp_a = ''2458765.500000000 = A.D. 2019-Oct-09 00:00:00.0000 TDB '' @ [NL]"

definition stamp_b :: string where
  "stamp_b = ''2458766.500000000 = A.D. 2019-Oct-10 00:00:00.0000 TDB '' @ [NL]"

definition stamp_c :: string where
  "stamp_c = ''2458769.250000000 = A.D. 2019-Oct-12 18:00:00.0000 TDB '' @ [NL]"

definition stamp_far :: string where
  "stamp_far = ''2459765.500000000 = A.D. 2022-Jul-05 00:00:00.0000 TDB '' @ [NL]"

definition shifted_stamp_a :: string where
  "shifted_stamp_a = '' 2458765.50000000 = A.D. 2019-Oct-09 00:00:00.0000 TDB '' @ [NL]"

definition shifted_stamp_b :: string where
  "shifted_stamp_b = '' 2458766.50000000 = A.D. 2019-Oct-10 00:00:00.0000 TDB '' @ [NL]"

definition plain_coords :: string where
  "plain_coords =
     '' 1.000000000000000E+00  2.000000000000000E+00  3.000000000000000E+00'' @ [NL]"

definition labeled_coords :: string where
  "labeled_coords =
     '' X = 1.000000000000000E+00 Y = 2.000000000000000E+00 Z = 3.000000000000000E+00''
     @ [NL]"

definition shifted_label_coords :: string where
  "shifted_label_coords =
     ''  X 7.000000000000000E+00   Y 8.000000000000000E+00   Z 9.000000000000000E+00''
     @ [NL]"

definition km_coords :: string where
  "km_coords =
     '' 1.495978707000000E+08  0.000000000000000E+00  0.000000000000000E+00'' @ [NL]"

definition km_velocity :: string where
  "km_velocity =
     '' 1.000000000000000E+00  0.000000000000000E+00  0.000000000000000E+00'' @ [NL]"

definition report_env :: "string \<Rightarrow> env" where
  "report_env inp =
     \<lparr>argc = 3, argv = [''jpl2mpc'', ''in.txt'', ''out.txt''], input_file = Some inp,
      output_opens = True, build_date = ''Jan  1 2024'', stack_bytes = blank_buffer\<rparr>"

definition no_arguments_env :: env where
  "no_arguments_env =
     \<lparr>argc = 1, argv = [''jpl2mpc''], input_file = None, output_opens = False,
      build_date = ''Jan  1 2024'', stack_bytes = blank_buffer\<rparr>"

definition three_samples :: string where
  "three_samples =
     frame_line @ soe_line @ stamp_a @ plain_coords @ stamp_b @ plain_coords @
     stamp_c @ plain_coords @ eoe_line"

definition far_samples :: string where
  "far_samples =
     frame_line @ soe_line @ stamp_a @ plain_coords @ stamp_far @ plain_coords @ eoe_line"

definition shifted_samples :: string where
  "shifted_samples =
     frame_line @ soe_line @ shifted_stamp_a @ plain_coords @ shifted_stamp_b @ plain_coords @
     eoe_line"

definition consecutive_stamps :: string where
  "consecutive_stamps = frame_line @ soe_line @ stamp_a @ stamp_b @ plain_coords @ eoe_line"

definition no_frame_report :: string where
  "no_frame_report = stamp_a @ plain_coords @ eoe_line"

definition truncated_report :: string where
  "truncated_report = frame_line @ soe_line @ stamp_a"

definition blank_velocity_report :: string where
  "blank_velocity_report =
     frame_line @ ''   VX    VY    VZ'' @ [NL] @ soe_line @
     stamp_a @ shifted_label_coords @ [NL] @ eoe_line"

definition no_samples_report :: string where
  "no_samples_report = ''Target body name: Gaia (-139479)'' @ [NL] @ soe_line @ eoe_line"

text \<open>
  A state at the head of the sample body: a timestamp line in the buffer, two samples
  written, velocities expected, and two more lines to read.
\<close>

definition body_state :: "bool \<Rightarrow> bool \<Rightarrow> string \<Rightarrow> rat state" where
  "body_state ecl km rest =
     \<lparr>ifile = rest, ofile = Outfile, streams = (\<lambda>f. \<lparr>data = [], pos = 0\<rparr>),
      buff = store_line stamp_a blank_buffer, n_written = 2,
      jd0 = 0, step_size = 0, frac_jd0 = 0, int_jd0 = 0,
      state_vectors = True, is_equatorial = (if ecl then False else True),
      is_ecliptical = ecl, in_km_s = km, object_name = []\<rparr>"

section \<open>Properties\<close>

subsection \<open>C strings in the buffer\<close>

lemma cstr_at_0: "cstr_at b 0 = takeWhile (\<lambda>c. c \<noteq> NUL) b"
  by (simp add: cstr_at_def)

lemma cstr_take: "cstr_at b 0 = take (strlen b) b"
  unfolding strlen_def cstr_at_0 by (rule takeWhile_eq_take)

lemma cstr_take_drop:
  assumes "off + n \<le> strlen b"
  shows "take n (drop off (cstr_at b 0)) = take n (drop off b)"
proof -
  have "take n (drop off (take (strlen b) b)) = take n (take (strlen b - off) (drop off b))"
    by (simp only: drop_take)
  also have "\<dots> = take (min n (strlen b - off)) (drop off b)" by (rule take_take)
  also have "min n (strlen b - off) = n" using assms by simp
  finally show ?thesis by (simp only: cstr_take [symmetric])
qed

lemma cstr_nth: "i < strlen b \<Longrightarrow> cstr_at b 0 ! i = b ! i"
  unfolding strlen_def cstr_at_0 by (rule takeWhile_nth)

lemma takeWhile_stop:
  "takeWhile (\<lambda>c. c \<noteq> z) (xs @ z # ys) = takeWhile (\<lambda>c. c \<noteq> z) xs"
  by (induction xs) simp_all

lemma cstr_store_line: "cstr_at (store_line chunk b) 0 = takeWhile (\<lambda>c. c \<noteq> NUL) chunk"
  by (simp add: cstr_at_0 store_line_def takeWhile_stop)

lemma is_timestamp_cstr: "is_timestamp M b = timestamp_line_spec M (cstr_at b 0)"
proof (cases "54 < strlen b")
  case True
  then have "take 7 (drop 17 (cstr_at b 0)) = take 7 (drop 17 b)"
    and "take 4 (drop 50 (cstr_at b 0)) = take 4 (drop 50 b)"
    and "cstr_at b 0 ! 42 = b ! 42" and "cstr_at b 0 ! 45 = b ! 45"
    by (simp_all add: cstr_take_drop cstr_nth)
  then show ?thesis
    by (simp add: is_timestamp_def timestamp_line_spec_def memcmp_eq_def strlen_def Let_def)
next
  case False
  then show ?thesis
    by (simp add: is_timestamp_def timestamp_line_spec_def strlen_def Let_def)
qed

subsection \<open>The sample body, the loop and the end of the run\<close>

lemma note_epoch_fields [simp]:
  "ifile (note_epoch M jd s) = ifile s"
  "ofile (note_epoch M jd s) = ofile s"
  "buff (note_epoch M jd s) = buff s"
  "n_written (note_epoch M jd s) = n_written s"
  "state_vectors (note_epoch M jd s) = state_vectors s"
  "is_equatorial (note_epoch M jd s) = is_equatorial s"
  "is_ecliptical (note_epoch M jd s) = is_ecliptical s"
  "in_km_s (note_epoch M jd s) = in_km_s s"
  "object_name (note_epoch M jd s) = object_name s"
  by (simp_all add: note_epoch_def fprintf_def)

lemma read_line_fields [simp]:
  "ifile (read_line c r s) = r"
  "ofile (read_line c r s) = ofile s"
  "buff (read_line c r s) = store_line c (buff s)"
  "streams (read_line c r s) = streams s"
  "n_written (read_line c r s) = n_written s"
  "jd0 (read_line c r s) = jd0 s"
  "step_size (read_line c r s) = step_size s"
  "frac_jd0 (read_line c r s) = frac_jd0 s"
  "int_jd0 (read_line c r s) = int_jd0 s"
  "state_vectors (read_line c r s) = state_vectors s"
  "is_equatorial (read_line c r s) = is_equatorial s"
  "is_ecliptical (read_line c r s) = is_ecliptical s"
  "in_km_s (read_line c r s) = in_km_s s"
  "object_name (read_line c r s) = object_name s"
  by (simp_all add: read_line_def)

lemma fprintf_fields [simp]:
  "ifile (fprintf f str s) = ifile s"
  "ofile (fprintf f str s) = ofile s"
  "buff (fprintf f str s) = buff s"
  "streams (fprintf f str s) = (streams s)(f := fput (streams s f) str)"
  "n_written (fprintf f str s) = n_written s"
  "jd0 (fprintf f str s) = jd0 s"
  "step_size (fprintf f str s) = step_size s"
  "frac_jd0 (fprintf f str s) = frac_jd0 s"
  "int_jd0 (fprintf f str s) = int_jd0 s"
  "state_vectors (fprintf f str s) = state_vectors s"
  "is_equatorial (fprintf f str s) = is_equatorial s"
  "is_ecliptical (fprintf f str s) = is_ecliptical s"
  "in_km_s (fprintf f str s) = in_km_s s"
  "object_name (fprintf f str s) = object_name s"
  by (simp_all add: fprintf_def)

lemma sample_step_frame_error:
  "is_equatorial s = is_ecliptical s \<Longrightarrow> sample_step M s = Inl (- 1, printf frame_message s)"
  by (simp add: sample_step_def)

lemma sample_step_truncated:
  "is_equatorial s \<noteq> is_ecliptical s \<Longrightarrow> fgets (ifile s) = None \<Longrightarrow>
   sample_step M s
     = Inl (- 2, printf truncated_message (note_epoch M (atof M (cstr_at (buff s) 0)) s))"
  by (simp add: sample_step_def Let_def)

lemma sample_step_position_only:
  "is_equatorial s \<noteq> is_ecliptical s \<Longrightarrow> fgets (ifile s) = Some (c1, r1) \<Longrightarrow>
   \<not> state_vectors s \<Longrightarrow>
   sample_step M s
     = Inr ((fprintf (ofile s) [NL] (after_position M s c1 r1))
              \<lparr>n_written := n_written s + 1\<rparr>)"
  by (simp add: sample_step_def Let_def after_position_def)

lemma sample_step_velocity_truncated:
  "is_equatorial s \<noteq> is_ecliptical s \<Longrightarrow> fgets (ifile s) = Some (c1, r1) \<Longrightarrow>
   state_vectors s \<Longrightarrow> fgets r1 = None \<Longrightarrow>
   sample_step M s = Inl (- 2, printf truncated_message (after_position M s c1 r1))"
  by (simp add: sample_step_def Let_def after_position_def)

lemma sample_step_state_vector:
  "is_equatorial s \<noteq> is_ecliptical s \<Longrightarrow> fgets (ifile s) = Some (c1, r1) \<Longrightarrow>
   state_vectors s \<Longrightarrow> fgets r1 = Some (c2, r2) \<Longrightarrow>
   sample_step M s
     = Inr ((fprintf (ofile s)
               (velocity_record M
                  (scale_velocity M (in_km_s s)
                     (get_coords_from_buff M (store_line c2 (store_line c1 (buff s)))
                        (is_ecliptical s))))
               (read_line c2 r2 (after_position M s c1 r1)))
              \<lparr>n_written := n_written s + 1\<rparr>)"
  by (simp add: sample_step_def Let_def after_position_def)

lemma fput_empty [simp]: "fput f [] = f"
  by (simp add: fput_def)

lemma at_end_fput: "at_end f \<Longrightarrow> at_end (fput f str)"
  by (simp add: fput_def at_end_def)

lemma data_fput_at_end: "at_end f \<Longrightarrow> data (fput f str) = data f @ str"
  by (simp add: fput_def at_end_def)

lemma out_fprintf [simp]: "out (fprintf (ofile s) str s) = fput (out s) str"
  by (simp add: out_def)

lemma out_read_line [simp]: "out (read_line c r s) = out s"
  by (simp add: out_def)

lemma out_n_written_update [simp]: "out (s\<lparr>n_written := n\<rparr>) = out s"
  by (simp add: out_def)

lemma out_note_epoch: "out (note_epoch M jd s) = fput (out s) (epoch_line s)"
  by (simp add: note_epoch_def epoch_line_def out_def fprintf_def)

lemma out_after_position:
  "out (after_position M s c1 r1)
     = fput (fput (out s) (epoch_line s))
         (position_record M (atof M (cstr_at (buff s) 0))
            (scale_position M (in_km_s s)
               (get_coords_from_buff M (store_line c1 (buff s)) (is_ecliptical s))))"
proof -
  have "ofile s = ofile (read_line c1 r1 (note_epoch M (atof M (cstr_at (buff s) 0)) s))"
    by simp
  then show ?thesis
    unfolding after_position_def Let_def
    by (simp only: out_fprintf out_read_line out_note_epoch)
qed

lemma after_position_fields [simp]:
  "ofile (after_position M s c1 r1) = ofile s"
  "ifile (after_position M s c1 r1) = r1"
  "buff (after_position M s c1 r1) = store_line c1 (buff s)"
  "n_written (after_position M s c1 r1) = n_written s"
  by (simp_all add: after_position_def Let_def)

lemma sample_step_appends:
  assumes fr: "is_equatorial s \<noteq> is_ecliptical s"
    and g1: "fgets (ifile s) = Some (c1, r1)"
    and g2: "state_vectors s \<longrightarrow> fgets r1 = Some (c2, r2)"
    and e: "at_end (out s)"
  shows "\<exists>s'. sample_step M s = Inr s' \<and> data (out s') = data (out s) @ sample_text M s c1 c2
            \<and> at_end (out s') \<and> n_written s' = n_written s + 1"
proof (cases "state_vectors s")
  case False
  let ?s' = "(fprintf (ofile s) [NL] (after_position M s c1 r1))\<lparr>n_written := n_written s + 1\<rparr>"
  have "sample_step M s = Inr ?s'"
    using fr g1 False by (rule sample_step_position_only)
  moreover have "out ?s' = fput (out (after_position M s c1 r1)) [NL]"
    by (simp add: out_def)
  ultimately show ?thesis
    using e False
    by (simp add: out_after_position data_fput_at_end at_end_fput sample_text_def)
next
  case True
  let ?s' = "(fprintf (ofile s)
               (velocity_record M
                  (scale_velocity M (in_km_s s)
                     (get_coords_from_buff M (store_line c2 (store_line c1 (buff s)))
                        (is_ecliptical s))))
               (read_line c2 r2 (after_position M s c1 r1)))
              \<lparr>n_written := n_written s + 1\<rparr>"
  have "sample_step M s = Inr ?s'"
    using fr g1 True g2 by (simp add: sample_step_state_vector)
  moreover have "out ?s' = fput (out (after_position M s c1 r1))
               (velocity_record M
                  (scale_velocity M (in_km_s s)
                     (get_coords_from_buff M (store_line c2 (store_line c1 (buff s)))
                        (is_ecliptical s))))"
    by (simp add: out_def)
  ultimately show ?thesis
    using e True
    by (simp add: out_after_position data_fput_at_end at_end_fput sample_text_def)
qed

lemma sample_step_rest:
  assumes fr: "is_equatorial s \<noteq> is_ecliptical s"
    and g1: "fgets (ifile s) = Some (c1, r1)"
    and g2: "state_vectors s \<longrightarrow> fgets r1 = Some (c2, r2)"
  shows "\<exists>s'. sample_step M s = Inr s' \<and> ifile s' = (if state_vectors s then r2 else r1)"
proof (cases "state_vectors s")
  case False
  then show ?thesis using sample_step_position_only [OF fr g1 False, of M] by simp
next
  case True
  then show ?thesis using sample_step_state_vector [OF fr g1 True, of c2 r2 M] g2 by simp
qed

lemma rotate_is_spec:
  "(\<And>a b. d_add M a b = d_add M b a) \<Longrightarrow> rotate_to_equatorial M c = rotation_spec M c"
  by (cases c) (simp add: rotate_to_equatorial_def rotation_spec_def sin_obliq_2000_def
        cos_obliq_2000_def Let_def)

lemma detect_step_fields [simp]:
  "ifile (detect_step M s) = ifile s"
  "ofile (detect_step M s) = ofile s"
  "buff (detect_step M s) = buff s"
  "streams (detect_step M s) = streams s"
  "n_written (detect_step M s) = n_written s"
  "jd0 (detect_step M s) = jd0 s"
  "step_size (detect_step M s) = step_size s"
  "frac_jd0 (detect_step M s) = frac_jd0 s"
  "int_jd0 (detect_step M s) = int_jd0 s"
  by (simp_all add: detect_step_def Let_def split: option.splits)

lemma out_detect_step [simp]: "out (detect_step M s) = out s"
  by (simp add: out_def)

lemma scan_timestamp:
  "fgets (ifile s) = Some (chunk, rest) \<Longrightarrow> is_timestamp M (buff (read_line chunk rest s)) \<Longrightarrow>
   scan M s = (case sample_step M (read_line chunk rest s) of
                 Inl r \<Rightarrow> Inl r | Inr s2 \<Rightarrow> scan M s2)"
  by (subst scan.simps) simp

lemma scan_other:
  "fgets (ifile s) = Some (chunk, rest) \<Longrightarrow> \<not> is_timestamp M (buff (read_line chunk rest s)) \<Longrightarrow>
   scan M s = scan M (detect_step M (read_line chunk rest s))"
  by (subst scan.simps) simp

lemma scan_eof: "fgets (ifile s) = None \<Longrightarrow> scan M s = Inr s"
  by (subst scan.simps) simp

lemma is_timestamp_store_line:
  "is_timestamp M (store_line chunk b)
     = timestamp_line_spec M (takeWhile (\<lambda>c. c \<noteq> NUL) chunk)"
  by (simp add: is_timestamp_cstr cstr_store_line)

lemma chunks_eof: "fgets inp = None \<Longrightarrow> chunks inp = []"
  by (subst chunks.simps) simp

lemma chunks_cons: "fgets inp = Some (chunk, rest) \<Longrightarrow> chunks inp = chunk # chunks rest"
  by (subst chunks.simps) simp

lemma scan_no_samples:
  "\<forall>c \<in> set (chunks (ifile s)). \<not> timestamp_line_spec M (takeWhile (\<lambda>c. c \<noteq> NUL) c) \<Longrightarrow>
   \<exists>s'. scan M s = Inr s' \<and> streams s' = streams s \<and> ofile s' = ofile s \<and>
        n_written s' = n_written s \<and> jd0 s' = jd0 s \<and> step_size s' = step_size s"
proof (induction M s rule: scan.induct)
  case (1 M s)
  show ?case
  proof (cases "fgets (ifile s)")
    case None
    then show ?thesis by (simp add: scan_eof)
  next
    case (Some x)
    obtain chunk rest where x: "x = (chunk, rest)" by (cases x)
    have g: "fgets (ifile s) = Some (chunk, rest)" using Some x by simp
    have c: "chunks (ifile s) = chunk # chunks rest" using g by (rule chunks_cons)
    have nt: "\<not> is_timestamp M (buff (read_line chunk rest s))"
      using "1.prems" c by (simp add: is_timestamp_store_line)
    have "\<forall>c \<in> set (chunks (ifile (detect_step M (read_line chunk rest s)))).
            \<not> timestamp_line_spec M (takeWhile (\<lambda>c. c \<noteq> NUL) c)"
      using "1.prems" c by simp
    from "1.IH"(2) [OF Some x [symmetric] nt this]
    obtain s' where "scan M (detect_step M (read_line chunk rest s)) = Inr s'"
      and "streams s' = streams s" and "ofile s' = ofile s" and "n_written s' = n_written s"
      and "jd0 s' = jd0 s" and "step_size s' = step_size s"
      by auto
    then show ?thesis using g nt by (simp add: scan_other)
  qed
qed

lemma memcmp_soe:
  "memcmp_eq (store_line chunk b) 0 ''$$SOE'' 5 = (take 5 chunk = ''$$SOE'')"
proof (cases "5 \<le> length chunk")
  case True
  then show ?thesis by (simp add: memcmp_eq_def store_line_def)
next
  case False
  then have l: "length chunk < 5" by simp
  have "take 5 chunk \<noteq> ''$$SOE''"
  proof
    assume "take 5 chunk = ''$$SOE''"
    then have "length (take 5 chunk) = 5" by simp
    then show False using l by simp
  qed
  moreover have "take 5 (chunk @ NUL # drop (Suc (length chunk)) b) \<noteq> ''$$SOE''"
  proof
    assume a: "take 5 (chunk @ NUL # drop (Suc (length chunk)) b) = ''$$SOE''"
    have "(chunk @ NUL # drop (Suc (length chunk)) b) ! length chunk = NUL" by simp
    then have "take 5 (chunk @ NUL # drop (Suc (length chunk)) b) ! length chunk = NUL"
      by (simp only: nth_take [OF l])
    then have "''$$SOE'' ! length chunk = NUL" using a by simp
    moreover have "\<forall>i < 5. ''$$SOE'' ! i \<noteq> NUL"
      by (simp add: nth_Cons' All_less_Suc numeral_eq_Suc)
    ultimately show False using l by blast
  qed
  ultimately show ?thesis by (simp add: memcmp_eq_def store_line_def)
qed

lemma preamble_text_eof: "fgets inp = None \<Longrightarrow> preamble_text inp = []"
  by (simp add: preamble_text_def chunks_eof)

lemma preamble_text_cons:
  "fgets inp = Some (chunk, rest) \<Longrightarrow>
   preamble_text inp =
     (if take 5 chunk = ''$$SOE'' then []
      else takeWhile (\<lambda>c. c \<noteq> NUL) chunk @ preamble_text rest)"
  by (simp add: preamble_text_def chunks_cons)

lemma copy_preamble_out:
  "at_end (out s) \<Longrightarrow>
   data (out (copy_preamble s)) = data (out s) @ preamble_text (ifile s) \<and>
   at_end (out (copy_preamble s)) \<and> ofile (copy_preamble s) = ofile s \<and>
   n_written (copy_preamble s) = n_written s \<and> jd0 (copy_preamble s) = jd0 s \<and>
   step_size (copy_preamble s) = step_size s"
proof (induction s rule: copy_preamble.induct)
  case (1 s)
  show ?case
  proof (cases "fgets (ifile s)")
    case None
    then have "copy_preamble s = s" by (subst copy_preamble.simps) simp
    then show ?thesis using None "1.prems" by (simp add: preamble_text_eof)
  next
    case (Some x)
    obtain chunk rest where x: "x = (chunk, rest)" by (cases x)
    have g: "fgets (ifile s) = Some (chunk, rest)" using Some x by simp
    show ?thesis
    proof (cases "take 5 chunk = ''$$SOE''")
      case True
      then have "copy_preamble s = read_line chunk rest s"
        using g by (subst copy_preamble.simps) (simp add: memcmp_soe)
      then show ?thesis using True g "1.prems" by (simp add: preamble_text_cons)
    next
      case False
      let ?s1 = "fprintf (ofile s) (cstr_at (buff (read_line chunk rest s)) 0)
                   (read_line chunk rest s)"
      have m: "\<not> memcmp_eq (buff (read_line chunk rest s)) 0 ''$$SOE'' 5"
        using False by (simp add: memcmp_soe)
      have cp: "copy_preamble s = copy_preamble ?s1"
        using g m by (subst copy_preamble.simps) simp
      have o1: "out ?s1 = fput (out s) (takeWhile (\<lambda>c. c \<noteq> NUL) chunk)"
        by (simp add: out_def cstr_store_line)
      have e1: "at_end (out ?s1)" using "1.prems" o1 by (simp add: at_end_fput)
      from "1.IH" [OF Some x [symmetric] m e1]
      show ?thesis
        using cp o1 "1.prems" False g
        by (simp add: data_fput_at_end preamble_text_cons)
    qed
  qed
qed

lemma main_opened:
  "1 < argc e \<Longrightarrow> input_file e = Some inp \<Longrightarrow> (if 2 < argc e then output_opens e else True) \<Longrightarrow>
   main M e = (case scan M (scan_start M e) of
                 Inl r \<Rightarrow> r
               | Inr s3 \<Rightarrow> (0, finish M e s3))"
  by (simp add: main_def convert_def scan_start_def Let_def split: if_splits)

lemma scan_start_fields [simp]:
  "ifile (scan_start M e) = input_bytes e"
  "ofile (scan_start M e) = (if 2 < argc e then Outfile else Stdout)"
  "n_written (scan_start M e) = 0"
  "jd0 (scan_start M e) = d_lit M ''0.''"
  "step_size (scan_start M e) = d_lit M ''0.''"
  "buff (scan_start M e) = stack_bytes e"
  "is_equatorial (scan_start M e) = False"
  "is_ecliptical (scan_start M e) = False"
  "state_vectors (scan_start M e) = False"
  "in_km_s (scan_start M e) = False"
  "object_name (scan_start M e) = []"
  by (simp_all add: scan_start_def initial_state_def)

lemma out_scan_start:
  "out (scan_start M e)
     = \<lparr>data = header M (d_lit M ''0.'') (d_lit M ''0.'') 0 @ '' 0,1,1'',
        pos = length (header M (d_lit M ''0.'') (d_lit M ''0.'') 0 @ '' 0,1,1'')\<rparr>"
  by (simp add: out_def scan_start_def initial_state_def fprintf_def fput_def)

lemma at_end_scan_start: "at_end (out (scan_start M e))"
  by (simp add: out_scan_start at_end_def)

lemma data_rewrite_start: "data (fput (rewind f) h) = h @ drop (length h) (data f)"
  by (simp add: fput_def rewind_def)

lemma finish_out:
  assumes "at_end (out s)"
  shows "data (out (finish M e s))
           = header M (jd0 s) (step_size s) (n_written s) @
             drop (length (header M (jd0 s) (step_size s) (n_written s)))
               (data (out s) @ trailer (build_date e) @ preamble_text (input_bytes e))"
proof -
  let ?s1 = "(fprintf (ofile s) (trailer (build_date e)) s)\<lparr>ifile := input_bytes e\<rparr>"
  have o1: "out ?s1 = fput (out s) (trailer (build_date e))" by (simp add: out_def)
  then have e1: "at_end (out ?s1)" using assms by (simp add: at_end_fput)
  have i1: "ifile ?s1 = input_bytes e" and f1: "ofile ?s1 = ofile s"
    and v1: "n_written ?s1 = n_written s" "jd0 ?s1 = jd0 s" "step_size ?s1 = step_size s"
    by simp_all
  note cp = copy_preamble_out [OF e1]
  let ?s2 = "copy_preamble ?s1"
  have d2: "data (out ?s2)
              = data (out s) @ trailer (build_date e) @ preamble_text (input_bytes e)"
    using cp o1 assms i1 by (simp add: data_fput_at_end)
  have "finish M e s
          = fprintf (ofile ?s2) (header M (jd0 ?s2) (step_size ?s2) (n_written ?s2))
              (fseek0 (ofile ?s2) ?s2)"
    by (simp add: finish_def Let_def fseek0_def)
  then have "out (finish M e s)
          = fput (rewind (out ?s2)) (header M (jd0 ?s2) (step_size ?s2) (n_written ?s2))"
    by (simp add: out_def fprintf_def fseek0_def)
  then show ?thesis using cp d2 v1 by (simp add: data_rewrite_start)
qed

lemma stamps_timestamp:
  "fgets (ifile s) = Some (chunk, rest) \<Longrightarrow> is_timestamp M (buff (read_line chunk rest s)) \<Longrightarrow>
   stamps M s = buff (read_line chunk rest s) #
                  (case sample_step M (read_line chunk rest s) of
                     Inl r \<Rightarrow> [] | Inr s2 \<Rightarrow> stamps M s2)"
  by (subst stamps.simps) simp

lemma stamps_other:
  "fgets (ifile s) = Some (chunk, rest) \<Longrightarrow> \<not> is_timestamp M (buff (read_line chunk rest s)) \<Longrightarrow>
   stamps M s = stamps M (detect_step M (read_line chunk rest s))"
  by (subst stamps.simps) simp

lemma stamps_eof: "fgets (ifile s) = None \<Longrightarrow> stamps M s = []"
  by (subst stamps.simps) simp

lemma scan_first_sample:
  "stamps M s = b # bs \<Longrightarrow> scan M s = Inr sf \<Longrightarrow>
   \<exists>s1 s2. buff s1 = b \<and> same_epoch s s1 \<and> length (ifile s1) < length (ifile s) \<and>
           sample_step M s1 = Inr s2 \<and> stamps M s2 = bs \<and> scan M s2 = Inr sf"
proof (induction M s rule: scan.induct)
  case (1 M s)
  show ?case
  proof (cases "fgets (ifile s)")
    case None
    then show ?thesis using "1.prems" by (simp add: stamps_eof)
  next
    case (Some x)
    obtain chunk rest where x: "x = (chunk, rest)" by (cases x)
    have g: "fgets (ifile s) = Some (chunk, rest)" using Some x by simp
    have sh: "length rest < length (ifile s)" using g by (rule fgets_shorter)
    let ?s1 = "read_line chunk rest s"
    show ?thesis
    proof (cases "is_timestamp M (buff ?s1)")
      case True
      from "1.prems"(2) g True obtain s2 where ss: "sample_step M ?s1 = Inr s2"
        and sc: "scan M s2 = Inr sf"
        by (auto simp: scan_timestamp split: sum.splits)
      have "stamps M s = buff ?s1 # stamps M s2"
        using g True ss by (simp add: stamps_timestamp)
      then have "buff ?s1 = b" "stamps M s2 = bs" using "1.prems"(1) by simp_all
      moreover have "same_epoch s ?s1" by (simp add: same_epoch_def)
      moreover have "length (ifile ?s1) < length (ifile s)" using sh by simp
      ultimately show ?thesis using ss sc by blast
    next
      case False
      let ?s2 = "detect_step M ?s1"
      have "stamps M ?s2 = b # bs" using "1.prems"(1) g False by (simp add: stamps_other)
      moreover have "scan M ?s2 = Inr sf" using "1.prems"(2) g False by (simp add: scan_other)
      ultimately obtain s1 s2 where "buff s1 = b" "same_epoch ?s2 s1"
        "length (ifile s1) < length (ifile ?s2)"
        "sample_step M s1 = Inr s2" "stamps M s2 = bs" "scan M s2 = Inr sf"
        using "1.IH"(2) [OF Some x [symmetric] False] by blast
      moreover have "same_epoch s s1" using \<open>same_epoch ?s2 s1\<close> by (simp add: same_epoch_def)
      moreover have "length (ifile s1) < length (ifile s)"
        using \<open>length (ifile s1) < length (ifile ?s2)\<close> sh by simp
      ultimately show ?thesis by blast
    qed
  qed
qed

lemma note_epoch_first:
  "n_written s = 0 \<Longrightarrow>
   jd0 (note_epoch M jd s) = jd \<and> step_size (note_epoch M jd s) = step_size s \<and>
   frac_jd0 (note_epoch M jd s) = atof M (cstr_at (buff s) 7) \<and>
   int_jd0 (note_epoch M jd s) = atoi M (cstr_at (buff s) 0)"
  by (simp add: note_epoch_def)

lemma note_epoch_second:
  "n_written s = 1 \<Longrightarrow>
   jd0 (note_epoch M jd s) = jd0 s \<and>
   step_size (note_epoch M jd s)
     = d_add M (d_sub M (atof M (cstr_at (buff s) 7)) (frac_jd0 s))
               (d_of_int M (sint (atoi M (cstr_at (buff s) 0) - int_jd0 s))) \<and>
   frac_jd0 (note_epoch M jd s) = frac_jd0 s \<and> int_jd0 (note_epoch M jd s) = int_jd0 s"
  by (simp add: note_epoch_def)

lemma note_epoch_later:
  "n_written s \<noteq> 0 \<Longrightarrow> n_written s \<noteq> 1 \<Longrightarrow> note_epoch M jd s = s"
  by (simp add: note_epoch_def)

lemma sample_step_vars:
  assumes "sample_step M s = Inr s'"
  shows "n_written s' = n_written s + 1 \<and>
         jd0 s' = jd0 (note_epoch M (atof M (cstr_at (buff s) 0)) s) \<and>
         step_size s' = step_size (note_epoch M (atof M (cstr_at (buff s) 0)) s) \<and>
         frac_jd0 s' = frac_jd0 (note_epoch M (atof M (cstr_at (buff s) 0)) s) \<and>
         int_jd0 s' = int_jd0 (note_epoch M (atof M (cstr_at (buff s) 0)) s)"
  using assms
  by (auto simp: sample_step_def Let_def split: if_splits option.splits)

lemma unat_succ_bounded:
  "unat (n :: 32 word) + 1 < 2 ^ 32 \<Longrightarrow> unat (n + 1) = unat n + 1"
  by (simp add: unat_word_ariths)

lemma scan_later_samples:
  "scan M s = Inr sf \<Longrightarrow> 2 \<le> unat (n_written s) \<Longrightarrow>
   unat (n_written s) + length (ifile s) < 2 ^ 32 \<Longrightarrow>
   step_size sf = step_size s \<and> jd0 sf = jd0 s \<and>
   unat (n_written sf) = unat (n_written s) + length (stamps M s)"
proof (induction M s rule: scan.induct)
  case (1 M s)
  show ?case
  proof (cases "fgets (ifile s)")
    case None
    then show ?thesis using "1.prems" by (simp add: stamps_eof scan_eof)
  next
    case (Some x)
    obtain chunk rest where x: "x = (chunk, rest)" by (cases x)
    have g: "fgets (ifile s) = Some (chunk, rest)" using Some x by simp
    have sh: "length rest < length (ifile s)" using g by (rule fgets_shorter)
    let ?s1 = "read_line chunk rest s"
    show ?thesis
    proof (cases "is_timestamp M (buff ?s1)")
      case True
      from "1.prems"(1) g True obtain s2 where ss: "sample_step M ?s1 = Inr s2"
        and sc: "scan M s2 = Inr sf"
        by (auto simp: scan_timestamp split: sum.splits)
      have st: "stamps M s = buff ?s1 # stamps M s2"
        using g True ss by (simp add: stamps_timestamp)
      have n01: "n_written ?s1 \<noteq> 0" "n_written ?s1 \<noteq> 1"
        using "1.prems"(2) by auto
      have v: "n_written s2 = n_written s + 1" "jd0 s2 = jd0 s" "step_size s2 = step_size s"
        using sample_step_vars [OF ss] note_epoch_later [OF n01] by simp_all
      have u: "unat (n_written s2) = unat (n_written s) + 1"
        using v(1) "1.prems"(3) sh by (simp add: unat_succ_bounded)
      have l2: "length (ifile s2) \<le> length rest"
        using sample_step_ifile_le [OF ss] by simp
      have "2 \<le> unat (n_written s2)" using u "1.prems"(2) by simp
      moreover have "unat (n_written s2) + length (ifile s2) < 2 ^ 32"
        using u l2 sh "1.prems"(3) by simp
      ultimately have "step_size sf = step_size s2 \<and> jd0 sf = jd0 s2 \<and>
          unat (n_written sf) = unat (n_written s2) + length (stamps M s2)"
        using "1.IH"(1) [OF Some x [symmetric] True ss sc] by blast
      then show ?thesis using v u st by simp
    next
      case False
      let ?s2 = "detect_step M ?s1"
      have "scan M ?s2 = Inr sf" using "1.prems"(1) g False by (simp add: scan_other)
      moreover have "2 \<le> unat (n_written ?s2)" using "1.prems"(2) by simp
      moreover have "unat (n_written ?s2) + length (ifile ?s2) < 2 ^ 32"
        using "1.prems"(3) sh by simp
      ultimately have "step_size sf = step_size ?s2 \<and> jd0 sf = jd0 ?s2 \<and>
          unat (n_written sf) = unat (n_written ?s2) + length (stamps M ?s2)"
        using "1.IH"(2) [OF Some x [symmetric] False] by blast
      then show ?thesis using g False by (simp add: stamps_other)
    qed
  qed
qed

lemma scan_without_stamps:
  "stamps M s = [] \<Longrightarrow> scan M s = Inr sf \<Longrightarrow> same_epoch s sf"
proof (induction M s rule: scan.induct)
  case (1 M s)
  show ?case
  proof (cases "fgets (ifile s)")
    case None
    then show ?thesis using "1.prems" by (simp add: scan_eof same_epoch_def)
  next
    case (Some x)
    obtain chunk rest where x: "x = (chunk, rest)" by (cases x)
    have g: "fgets (ifile s) = Some (chunk, rest)" using Some x by simp
    let ?s1 = "read_line chunk rest s"
    have nt: "\<not> is_timestamp M (buff ?s1)"
      using "1.prems"(1) g by (auto simp: stamps_timestamp)
    let ?s2 = "detect_step M ?s1"
    have "stamps M ?s2 = []" using "1.prems"(1) g nt by (simp add: stamps_other)
    moreover have "scan M ?s2 = Inr sf" using "1.prems"(2) g nt by (simp add: scan_other)
    ultimately have "same_epoch ?s2 sf"
      using "1.IH"(2) [OF Some x [symmetric] nt] by blast
    then show ?thesis by (simp add: same_epoch_def)
  qed
qed

lemma scan_epoch_and_step:
  assumes sc: "scan M s = Inr sf" and n0: "n_written s = 0"
    and st: "stamps M s = b1 # bs" and small: "length (ifile s) < 2 ^ 32"
  shows "jd0 sf = atof M (cstr_at b1 0) \<and>
         step_size sf = (case bs of [] \<Rightarrow> step_size s | b2 # later \<Rightarrow> step_between M b1 b2) \<and>
         unat (n_written sf) = 1 + length bs"
proof -
  from scan_first_sample [OF st sc]
  obtain s1 s2 where b: "buff s1 = b1" and ep: "same_epoch s s1"
    and l1: "length (ifile s1) < length (ifile s)"
    and ss: "sample_step M s1 = Inr s2" and st2: "stamps M s2 = bs" and sc2: "scan M s2 = Inr sf"
    by blast
  have n1: "n_written s1 = 0" using ep n0 by (simp add: same_epoch_def)
  have v2: "n_written s2 = 1" "jd0 s2 = atof M (cstr_at b1 0)" "step_size s2 = step_size s"
    "frac_jd0 s2 = atof M (cstr_at b1 7)" "int_jd0 s2 = atoi M (cstr_at b1 0)"
    using sample_step_vars [OF ss] note_epoch_first [OF n1, of M] b ep n0 n1
    by (simp_all add: same_epoch_def)
  have l2: "length (ifile s2) < length (ifile s)"
    using sample_step_ifile_le [OF ss] l1 by simp
  show ?thesis
  proof (cases bs)
    case Nil
    have "same_epoch s2 sf" using scan_without_stamps [OF _ sc2] st2 Nil by simp
    then show ?thesis using v2 Nil by (simp add: same_epoch_def)
  next
    case (Cons b2 later)
    from scan_first_sample [OF st2 [unfolded Cons] sc2]
    obtain s3 s4 where b3: "buff s3 = b2" and ep3: "same_epoch s2 s3"
      and l3: "length (ifile s3) < length (ifile s2)"
      and ss3: "sample_step M s3 = Inr s4" and st4: "stamps M s4 = later"
      and sc4: "scan M s4 = Inr sf"
      by blast
    have n3: "n_written s3 = 1" using ep3 v2 by (simp add: same_epoch_def)
    have v4: "n_written s4 = 2" "jd0 s4 = atof M (cstr_at b1 0)"
      "step_size s4 = step_between M b1 b2"
      using sample_step_vars [OF ss3] note_epoch_second [OF n3, of M] b3 ep3 v2 n3
      by (simp_all add: same_epoch_def step_between_def)
    have l4: "length (ifile s4) < length (ifile s2)"
      using sample_step_ifile_le [OF ss3] l3 by simp
    have "2 \<le> unat (n_written s4)" using v4 by simp
    moreover have "unat (n_written s4) + length (ifile s4) < 2 ^ 32"
      using v4 l4 l2 small by simp
    ultimately have "step_size sf = step_size s4 \<and> jd0 sf = jd0 s4 \<and>
        unat (n_written sf) = unat (n_written s4) + length (stamps M s4)"
      using scan_later_samples [OF sc4] by blast
    then show ?thesis using v4 st4 Cons by simp
  qed
qed

lemma sample_step_exits:
  "sample_step M s = Inl (c, s') \<Longrightarrow>
   (c = - 1 \<and> (\<exists>t. s' = printf frame_message t)) \<or>
   (c = - 2 \<and> (\<exists>t. s' = printf truncated_message t))"
  by (auto simp: sample_step_def Let_def split: if_splits option.splits)

lemma scan_exits:
  "scan M s = Inl (c, s') \<Longrightarrow>
   (c = - 1 \<and> (\<exists>t. s' = printf frame_message t)) \<or>
   (c = - 2 \<and> (\<exists>t. s' = printf truncated_message t))"
proof (induction M s rule: scan.induct)
  case (1 M s)
  show ?case
  proof (cases "fgets (ifile s)")
    case None
    then show ?thesis using "1.prems" by (simp add: scan_eof)
  next
    case (Some x)
    obtain chunk rest where x: "x = (chunk, rest)" by (cases x)
    have g: "fgets (ifile s) = Some (chunk, rest)" using Some x by simp
    let ?s1 = "read_line chunk rest s"
    show ?thesis
    proof (cases "is_timestamp M (buff ?s1)")
      case True
      show ?thesis
      proof (cases "sample_step M ?s1")
        case (Inl r)
        then have "sample_step M ?s1 = Inl (c, s')"
          using "1.prems" g True by (simp add: scan_timestamp)
        then show ?thesis by (rule sample_step_exits)
      next
        case (Inr s2)
        then have "scan M s2 = Inl (c, s')"
          using "1.prems" g True by (simp add: scan_timestamp)
        then show ?thesis using "1.IH"(1) [OF Some x [symmetric] True Inr] by blast
      qed
    next
      case False
      then have "scan M (detect_step M ?s1) = Inl (c, s')"
        using "1.prems" g by (simp add: scan_other)
      then show ?thesis using "1.IH"(2) [OF Some x [symmetric] False] by blast
    qed
  qed
qed

lemma main_usage:
  "argc e < 2 \<or> (1 < argc e \<and> input_file e = None) \<or> (2 < argc e \<and> output_opens e = False) \<Longrightarrow>
   \<exists>t. main M e = (- 1, printf usage_text t)"
  by (auto simp: main_def Let_def)

lemma main_success:
  assumes "main M e = (0, sf)"
  shows "\<exists>s3. scan M (scan_start M e) = Inr s3 \<and> sf = finish M e s3"
proof -
  have op: "1 < argc e" "input_file e \<noteq> None" "if 2 < argc e then output_opens e else True"
    using assms by (auto simp: main_def Let_def split: if_splits)
  then obtain inp where "input_file e = Some inp" by auto
  note m = main_opened [OF op(1) this op(3), of M]
  show ?thesis
  proof (cases "scan M (scan_start M e)")
    case (Inl r)
    obtain c s' where "r = (c, s')" by (cases r)
    then have "c = - 1 \<or> c = - 2" using scan_exits [of M "scan_start M e" c s'] Inl by auto
    then show ?thesis using m Inl \<open>r = (c, s')\<close> assms by auto
  next
    case (Inr s3)
    then show ?thesis using m assms by simp
  qed
qed

lemma copy_preamble_vars:
  "ofile (copy_preamble s) = ofile s \<and> n_written (copy_preamble s) = n_written s \<and>
   jd0 (copy_preamble s) = jd0 s \<and> step_size (copy_preamble s) = step_size s"
proof (induction s rule: copy_preamble.induct)
  case (1 s)
  show ?case
  proof (cases "fgets (ifile s)")
    case None
    then have "copy_preamble s = s" by (subst copy_preamble.simps) simp
    then show ?thesis by simp
  next
    case (Some x)
    obtain chunk rest where x: "x = (chunk, rest)" by (cases x)
    have g: "fgets (ifile s) = Some (chunk, rest)" using Some x by simp
    show ?thesis
    proof (cases "memcmp_eq (buff (read_line chunk rest s)) 0 ''$$SOE'' 5")
      case True
      then have "copy_preamble s = read_line chunk rest s"
        using g by (subst copy_preamble.simps) simp
      then show ?thesis by simp
    next
      case False
      let ?s1 = "fprintf (ofile s) (cstr_at (buff (read_line chunk rest s)) 0)
                   (read_line chunk rest s)"
      have "copy_preamble s = copy_preamble ?s1"
        using g False by (subst copy_preamble.simps) simp
      then show ?thesis using "1.IH" [OF Some x [symmetric] False] by simp
    qed
  qed
qed

lemma finish_header:
  "\<exists>tail. data (out (finish M e s)) = header M (jd0 s) (step_size s) (n_written s) @ tail"
proof -
  let ?s1 = "(fprintf (ofile s) (trailer (build_date e)) s)\<lparr>ifile := input_bytes e\<rparr>"
  let ?s2 = "copy_preamble ?s1"
  have v: "ofile ?s2 = ofile s" "n_written ?s2 = n_written s" "jd0 ?s2 = jd0 s"
    "step_size ?s2 = step_size s"
    using copy_preamble_vars [of ?s1] by simp_all
  have "finish M e s
          = fprintf (ofile ?s2) (header M (jd0 ?s2) (step_size ?s2) (n_written ?s2))
              (fseek0 (ofile ?s2) ?s2)"
    by (simp add: finish_def Let_def fseek0_def)
  then have "out (finish M e s)
          = fput (rewind (out ?s2)) (header M (jd0 ?s2) (step_size ?s2) (n_written ?s2))"
    by (simp add: out_def fprintf_def fseek0_def)
  then show ?thesis using v by (simp add: data_rewrite_start)
qed

subsection \<open>The output of a run that ends with exit code 0\<close>

text \<open>
  Every timestamp line that the scan meets adds one sample text to the output, and the
  end of the run writes the final header over the start of what the run has written: the
  provisional header, the suffix, the sample texts, the trailer and the preamble.
\<close>

lemma sample_step_reads:
  assumes "sample_step M s = Inr s'"
  shows "is_equatorial s \<noteq> is_ecliptical s \<and>
         (\<exists>c1 r1 c2 r2. fgets (ifile s) = Some (c1, r1) \<and>
                        (state_vectors s \<longrightarrow> fgets r1 = Some (c2, r2)))"
  using assms
  by (auto simp: sample_step_def Let_def split: if_splits option.splits)

lemma sample_step_ofile: "sample_step M s = Inr s' \<Longrightarrow> ofile s' = ofile s"
  by (auto simp: sample_step_def Let_def split: if_splits option.splits)

lemma sample_step_text:
  assumes ss: "sample_step M s = Inr s'" and e: "at_end (out s)"
  shows "\<exists>c1 c2. data (out s') = data (out s) @ sample_text M s c1 c2 \<and> at_end (out s')"
proof -
  from sample_step_reads [OF ss] obtain c1 r1 c2 r2
    where fr: "is_equatorial s \<noteq> is_ecliptical s"
      and g1: "fgets (ifile s) = Some (c1, r1)"
      and g2: "state_vectors s \<longrightarrow> fgets r1 = Some (c2, r2)"
    by blast
  from sample_step_appends [OF fr g1 g2 e, of M] ss show ?thesis by auto
qed

lemma scan_writes_samples:
  "scan M s = Inr sf \<Longrightarrow> at_end (out s) \<Longrightarrow>
   \<exists>texts. list_all2 (\<lambda>b t. \<exists>st c1 c2. buff st = b \<and> t = sample_text M st c1 c2)
             (stamps M s) texts \<and>
           data (out sf) = data (out s) @ concat texts \<and> at_end (out sf) \<and>
           ofile sf = ofile s"
proof (induction M s rule: scan.induct)
  case (1 M s)
  show ?case
  proof (cases "fgets (ifile s)")
    case None
    then show ?thesis using "1.prems" by (simp add: scan_eof stamps_eof)
  next
    case (Some x)
    obtain chunk rest where x: "x = (chunk, rest)" by (cases x)
    have g: "fgets (ifile s) = Some (chunk, rest)" using Some x by simp
    let ?s1 = "read_line chunk rest s"
    show ?thesis
    proof (cases "is_timestamp M (buff ?s1)")
      case True
      from "1.prems"(1) g True obtain s2 where ss: "sample_step M ?s1 = Inr s2"
        and sc: "scan M s2 = Inr sf"
        by (auto simp: scan_timestamp split: sum.splits)
      have st: "stamps M s = buff ?s1 # stamps M s2"
        using g True ss by (simp add: stamps_timestamp)
      have e1: "at_end (out ?s1)" using "1.prems"(2) by simp
      from sample_step_text [OF ss e1] obtain c1 c2
        where d2: "data (out s2) = data (out s) @ sample_text M ?s1 c1 c2"
          and e2: "at_end (out s2)"
        by auto
      from "1.IH"(1) [OF Some x [symmetric] True ss sc e2] obtain texts
        where l: "list_all2 (\<lambda>b t. \<exists>st c1 c2. buff st = b \<and> t = sample_text M st c1 c2)
                    (stamps M s2) texts"
          and d: "data (out sf) = data (out s2) @ concat texts"
          and ef: "at_end (out sf)" and f: "ofile sf = ofile s2"
        by blast
      let ?texts = "sample_text M ?s1 c1 c2 # texts"
      have "\<exists>st c1' c2'. buff st = buff ?s1 \<and>
              sample_text M ?s1 c1 c2 = sample_text M st c1' c2'"
        by blast
      then have "list_all2 (\<lambda>b t. \<exists>st c1 c2. buff st = b \<and> t = sample_text M st c1 c2)
              (stamps M s) ?texts"
        using l by (simp only: st list_all2_Cons)
      moreover have "data (out sf) = data (out s) @ concat ?texts" using d d2 by simp
      moreover have "ofile sf = ofile s" using f sample_step_ofile [OF ss] by simp
      ultimately show ?thesis using ef by blast
    next
      case False
      let ?s2 = "detect_step M ?s1"
      have "scan M ?s2 = Inr sf" using "1.prems"(1) g False by (simp add: scan_other)
      moreover have "at_end (out ?s2)" using "1.prems"(2) by simp
      ultimately obtain texts
        where "list_all2 (\<lambda>b t. \<exists>st c1 c2. buff st = b \<and> t = sample_text M st c1 c2)
                 (stamps M ?s2) texts"
          and "data (out sf) = data (out ?s2) @ concat texts"
          and "at_end (out sf)" and "ofile sf = ofile ?s2"
        using "1.IH"(2) [OF Some x [symmetric] False] by blast
      then show ?thesis using g False by (auto simp: stamps_other)
    qed
  qed
qed

lemma run_output:
  assumes m: "main M e = (0, sf)"
  shows "\<exists>texts s3.
           list_all2 (\<lambda>b t. \<exists>st c1 c2. buff st = b \<and> t = sample_text M st c1 c2)
             (stamps M (scan_start M e)) texts \<and>
           scan M (scan_start M e) = Inr s3 \<and>
           data (out sf) =
             header M (jd0 s3) (step_size s3) (n_written s3) @
             drop (length (header M (jd0 s3) (step_size s3) (n_written s3)))
               (header M (d_lit M ''0.'') (d_lit M ''0.'') 0 @ '' 0,1,1'' @ concat texts @
                trailer (build_date e) @ preamble_text (input_bytes e))"
proof -
  from main_success [OF m] obtain s3 where sc: "scan M (scan_start M e) = Inr s3"
    and f: "sf = finish M e s3" by blast
  from scan_writes_samples [OF sc at_end_scan_start] obtain texts
    where l: "list_all2 (\<lambda>b t. \<exists>st c1 c2. buff st = b \<and> t = sample_text M st c1 c2)
                (stamps M (scan_start M e)) texts"
      and d: "data (out s3) = data (out (scan_start M e)) @ concat texts"
      and e3: "at_end (out s3)"
    by blast
  have "data (out sf) =
             header M (jd0 s3) (step_size s3) (n_written s3) @
             drop (length (header M (jd0 s3) (step_size s3) (n_written s3)))
               (header M (d_lit M ''0.'') (d_lit M ''0.'') 0 @ '' 0,1,1'' @ concat texts @
                trailer (build_date e) @ preamble_text (input_bytes e))"
    using finish_out [OF e3, of M e] f d by (simp add: out_scan_start)
  then show ?thesis using l sc by blast
qed

text \<open>From 10000 samples on, \<^verbatim>\<open>%4u\<close> writes more than four characters.\<close>

lemma dec_digits_step: "10 \<le> n \<Longrightarrow> length (dec_digits n) = Suc (length (dec_digits (n div 10)))"
  by (subst dec_digits.simps) simp

lemma dec_digits_nonempty: "0 < length (dec_digits n)"
  by (subst dec_digits.simps) simp

lemma count_wider_than_four: "10000 \<le> uint n \<Longrightarrow> 4 < length (fmt_u 4 n)"
proof -
  assume a: "10000 \<le> uint n"
  let ?k = "uint n"
  have 1: "length (dec_digits ?k) = Suc (length (dec_digits (?k div 10)))"
    using a by (intro dec_digits_step) simp
  have 2: "length (dec_digits (?k div 10)) = Suc (length (dec_digits (?k div 10 div 10)))"
    using a by (intro dec_digits_step) simp
  have 3: "length (dec_digits (?k div 10 div 10))
             = Suc (length (dec_digits (?k div 10 div 10 div 10)))"
    using a by (intro dec_digits_step) simp
  have 4: "length (dec_digits (?k div 10 div 10 div 10))
             = Suc (length (dec_digits (?k div 10 div 10 div 10 div 10)))"
    using a by (intro dec_digits_step) simp
  have "4 < length (dec_digits ?k)"
    using 1 2 3 4 dec_digits_nonempty [of "?k div 10 div 10 div 10 div 10"] by linarith
  then show ?thesis by (simp add: fmt_u_def pad_left_def)
qed

subsection \<open>Rounding\<close>

lemma ratio_near_one:
  fixes a b A eps :: real
  assumes e0: "0 \<le> eps" and e1: "eps \<le> 1 / 10 ^ 7" and A: "0 < A"
    and a: "\<bar>a - A\<bar> \<le> eps * A" and b: "\<bar>b - A\<bar> \<le> eps * A"
  shows "0 < b \<and> \<bar>a / b - 1\<bar> \<le> 3 * eps"
proof -
  have e3: "eps < 1 / 3" using e1 by simp
  have al: "A * (1 - eps) \<le> a" and au: "a \<le> A * (1 + eps)"
    using a by (simp_all add: abs_le_iff algebra_simps)
  have bl: "A * (1 - eps) \<le> b" and bu: "b \<le> A * (1 + eps)"
    using b by (simp_all add: abs_le_iff algebra_simps)
  have bp: "0 < A * (1 - eps)" using A e3 by simp
  then have b0: "0 < b" using bl by linarith
  have a0: "0 < a" using bp al by linarith
  have "a / b \<le> (A * (1 + eps)) / (A * (1 - eps))"
    using au bl bp a0 by (intro frac_le) simp_all
  also have "\<dots> = (1 + eps) / (1 - eps)" using A by simp
  also have "\<dots> \<le> 1 + 3 * eps"
  proof -
    have "1 + eps \<le> (1 + 3 * eps) * (1 - eps)"
    proof -
      have "eps * (3 * eps) \<le> eps * 1"
        using e0 e3 by (intro mult_left_mono) simp_all
      then have "3 * (eps * eps) \<le> eps" by (simp add: algebra_simps)
      then show ?thesis by (simp add: algebra_simps)
    qed
    then show ?thesis using e3 by (simp add: pos_divide_le_eq)
  qed
  finally have up: "a / b \<le> 1 + 3 * eps" .
  have "(1 - eps) / (1 + eps) = (A * (1 - eps)) / (A * (1 + eps))" using A by simp
  also have "\<dots> \<le> a / b"
    using al bu b0 bp by (intro frac_le) simp_all
  finally have "(1 - eps) / (1 + eps) \<le> a / b" .
  moreover have "1 - 3 * eps \<le> (1 - eps) / (1 + eps)"
  proof -
    have "(1 - 3 * eps) * (1 + eps) \<le> 1 - eps"
    proof -
      have "0 \<le> eps * eps" using e0 by simp
      then show ?thesis using e0 by (simp add: algebra_simps)
    qed
    then show ?thesis using e0 by (simp add: pos_le_divide_eq)
  qed
  ultimately have lo: "1 - 3 * eps \<le> a / b" by linarith
  have "\<bar>a / b - 1\<bar> \<le> 3 * eps" using up lo by linarith
  then show ?thesis using b0 by simp
qed

lemma rounded_ratio_near_one:
  fixes a b q A eps :: real
  assumes e0: "0 \<le> eps" and e1: "eps \<le> 1 / 10 ^ 7" and A: "0 < A"
    and a: "\<bar>a - A\<bar> \<le> eps * A" and b: "\<bar>b - A\<bar> \<le> eps * A"
    and q: "\<bar>q - a / b\<bar> \<le> eps * \<bar>a / b\<bar>"
  shows "\<bar>q - 1\<bar> \<le> 1 / 10 ^ 6"
proof -
  from ratio_near_one [OF e0 e1 A a b] have r: "\<bar>a / b - 1\<bar> \<le> 3 * eps" by simp
  then have "\<bar>a / b\<bar> \<le> 1 + 3 * eps" by linarith
  also have "\<dots> \<le> 2" using e1 by simp
  finally have "eps * \<bar>a / b\<bar> \<le> eps * 2" using e0 by (rule mult_left_mono)
  then have "\<bar>q - a / b\<bar> \<le> 2 * eps" using q by simp
  then have "\<bar>q - 1\<bar> \<le> 5 * eps" using r by linarith
  then show ?thesis using e1 by simp
qed

section \<open>The claims\<close>

subsection \<open>The header written over the start of the output\<close>

text \<open>
  C1 (the program departs from the claim). The report \<open>far_samples\<close> is well formed: an
  equatorial frame line and two samples 1000 days apart, each a timestamp line and a
  coordinate line. The run ends with exit code 0 and writes two records. The provisional
  header has 33 characters, but \<^verbatim>\<open>%14.10f\<close> needs 15 characters for the step 1000, so the
  header written over the start of the output has 34 and replaces the space of the suffix
  \<^verbatim>\<open>" 0,1,1"\<close>: the first line ends with the count run into the suffix, \<^verbatim>\<open>20,1,1\<close>, and not
  with the count 2 followed by \<^verbatim>\<open>" 0,1,1"\<close>. A count of 10000 or more makes the header
  longer in the same way (\<open>count_wider_than_four\<close>). What holds of every run that ends
  with exit code 0 is \<open>run_output\<close>: one sample text for each timestamp line met, and the
  final header written over the first characters of the provisional header and what
  follows it.
\<close>

theorem header_overrun:
  "fst (main exact (report_env far_samples)) = 0 \<and>
   header exact (d_lit exact ''0.'') (d_lit exact ''0.'') 0
     = ''      0.00000   0.0000000000    0'' \<and>
   header exact (4917531 / 2) 1000 2 = ''2458765.50000 1000.0000000000    2'' \<and>
   data (out (snd (main exact (report_env far_samples)))) =
     ''2458765.50000 1000.0000000000    20,1,1'' @ [NL] @
     ''2458765.50000    1.0000000000    2.0000000000    3.0000000000'' @ [NL] @
     ''2459765.50000    1.0000000000    2.0000000000    3.0000000000'' @ [NL] @
     [NL, NL] @ ''Created from Horizons data by '' @ [SQ] @ ''jpl2mpc'' @ [SQ] @
     '', ver Jan  1 2024'' @ [NL] @ ''Reference frame : ICRF'' @ [NL]"
  by code_simp

subsection \<open>The timestamp test\<close>

text \<open>
  C2, as stated, fails for a line that the body of a sample reads. After a timestamp line
  the body reads the next line (line 170), and with state vectors the one after it (line
  185), and parses it as a coordinate line without testing it. In \<open>consecutive_stamps\<close> two
  lines that meet the five conditions follow each other: the second is read as the
  position line of the first, its date 2458766.5 gives the component 458766.5 at offset 1
  and its year the component 2019 at offset 24, and the run ends with exit code 0 and one
  sample in the header.
\<close>

theorem consecutive_stamps_counterexample:
  "chunks consecutive_stamps = [frame_line, soe_line, stamp_a, stamp_b, plain_coords, eoe_line] \<and>
   timestamp_line_spec exact stamp_a \<and> timestamp_line_spec exact stamp_b \<and>
   length (stamps exact (scan_start exact (report_env consecutive_stamps))) = 1 \<and>
   get_coords_from_buff exact (store_line stamp_b (store_line stamp_a blank_buffer)) False
     = (917533 / 2, 2019, 0) \<and>
   fst (main exact (report_env consecutive_stamps)) = 0 \<and>
   data (out (snd (main exact (report_env consecutive_stamps)))) =
     ''2458765.50000   0.0000000000    1 0,1,1'' @ [NL] @
     ''2458765.50000458766.5000000000 2019.0000000000    0.0000000000'' @ [NL] @
     [NL, NL] @ ''Created from Horizons data by '' @ [SQ] @ ''jpl2mpc'' @ [SQ] @
     '', ver Jan  1 2024'' @ [NL] @ ''Reference frame : ICRF'' @ [NL]"
  by code_simp

text \<open>
  C2, as amended. For every line that the scan loop reads at its head (line 142),
  whatever the buffer held before, the test of lines 143 to 146 holds exactly when the
  five conditions of the specification hold of the text of the line (the bytes \<^verbatim>\<open>fgets\<close>
  delivered, newline included, up to the first NUL): a leading number strictly between
  2,000,000 and 3,000,000, more than 54 characters, \<^verbatim>\<open>" = A.D."\<close> at offset 17, a colon at
  offset 42 and a full stop at offset 45, and \<^verbatim>\<open>" TDB"\<close> at offset 50. The loop runs the
  sample body on the line when they hold and the chain of header tests when they do not.
  The body of a sample, started in a state \<open>t\<close> with the frame resolved, reads the next
  line \<open>c1\<close>, and with state vectors the line \<open>c2\<close> after it, whatever they hold: it writes
  the sample with their coordinates and leaves the rest of the input to the loop.
\<close>

theorem timestamp_test_at_loop_head:
  "is_timestamp M (buff (read_line chunk rest s))
     = timestamp_line_spec M (takeWhile (\<lambda>c. c \<noteq> NUL) chunk) \<and>
   (fgets (ifile s) = Some (chunk, rest) \<longrightarrow>
      scan M s =
        (if timestamp_line_spec M (takeWhile (\<lambda>c. c \<noteq> NUL) chunk) then
           (case sample_step M (read_line chunk rest s) of
              Inl r \<Rightarrow> Inl r
            | Inr s2 \<Rightarrow> scan M s2)
         else scan M (detect_step M (read_line chunk rest s)))) \<and>
   (is_equatorial t \<noteq> is_ecliptical t \<and> fgets (ifile t) = Some (c1, r1) \<and>
    (state_vectors t \<longrightarrow> fgets r1 = Some (c2, r2)) \<and> at_end (out t) \<longrightarrow>
      (\<exists>t'. sample_step M t = Inr t' \<and>
            ifile t' = (if state_vectors t then r2 else r1) \<and>
            data (out t') = data (out t) @ sample_text M t c1 c2))"
proof -
  have t: "is_timestamp M (buff (read_line chunk rest s))
     = timestamp_line_spec M (takeWhile (\<lambda>c. c \<noteq> NUL) chunk)"
    by (simp add: is_timestamp_store_line)
  have h: "fgets (ifile s) = Some (chunk, rest) \<Longrightarrow>
      scan M s =
        (if timestamp_line_spec M (takeWhile (\<lambda>c. c \<noteq> NUL) chunk) then
           (case sample_step M (read_line chunk rest s) of
              Inl r \<Rightarrow> Inl r
            | Inr s2 \<Rightarrow> scan M s2)
         else scan M (detect_step M (read_line chunk rest s)))"
    using t by (cases "is_timestamp M (buff (read_line chunk rest s))")
      (simp_all only: scan_timestamp scan_other if_True if_False simp_thms)
  have b: "\<exists>t'. sample_step M t = Inr t' \<and>
            ifile t' = (if state_vectors t then r2 else r1) \<and>
            data (out t') = data (out t) @ sample_text M t c1 c2"
    if fr: "is_equatorial t \<noteq> is_ecliptical t" and g1: "fgets (ifile t) = Some (c1, r1)"
      and g2: "state_vectors t \<longrightarrow> fgets r1 = Some (c2, r2)" and e: "at_end (out t)"
  proof -
    from sample_step_appends [OF fr g1 g2 e, of M]
    obtain t1 where 1: "sample_step M t = Inr t1"
      and 2: "data (out t1) = data (out t) @ sample_text M t c1 c2" by blast
    from sample_step_rest [OF fr g1 g2, of M]
    obtain t2 where 3: "sample_step M t = Inr t2"
      and 4: "ifile t2 = (if state_vectors t then r2 else r1)" by blast
    from 1 3 have "t2 = t1" by simp
    with 1 2 4 show ?thesis by blast
  qed
  show ?thesis using t h b by blast
qed

text \<open>
  A timestamp line of Horizons passes, and so does the same line cut to 54 characters and
  a newline; cut to 54 characters without a newline it fails, as a frame line does. Read
  by the body of a sample, two timestamp lines are the position line and the velocity
  line of the sample.
\<close>

theorem timestamp_test_at_loop_head_witness:
  "timestamp_line_spec exact stamp_a \<and>
   timestamp_line_spec exact (take 54 stamp_a @ [NL]) \<and>
   \<not> timestamp_line_spec exact (take 54 stamp_a) \<and>
   \<not> timestamp_line_spec exact frame_line \<and>
   scan exact (scan_start exact (report_env no_frame_report)) =
     (case sample_step exact
             (read_line stamp_a (plain_coords @ eoe_line)
                (scan_start exact (report_env no_frame_report))) of
        Inl r \<Rightarrow> Inl r
      | Inr s2 \<Rightarrow> scan exact s2) \<and>
   scan exact (scan_start exact (report_env no_samples_report)) =
     scan exact
       (detect_step exact
          (read_line (''Target body name: Gaia (-139479)'' @ [NL]) (soe_line @ eoe_line)
             (scan_start exact (report_env no_samples_report)))) \<and>
   timestamp_line_spec exact stamp_b \<and> timestamp_line_spec exact stamp_c \<and>
   (\<exists>t'. sample_step exact (body_state False False (stamp_b @ stamp_c @ eoe_line)) = Inr t' \<and>
         ifile t' = eoe_line \<and>
         data (out t') =
           ''2458765.50000458766.5000000000 2019.0000000000    0.0000000000'' @
           '' 458769.2500000000002019.000000000000  0.000000000000'' @ [NL])"
proof -
  let ?s = "scan_start exact (report_env no_frame_report)"
  let ?u = "scan_start exact (report_env no_samples_report)"
  let ?l = "''Target body name: Gaia (-139479)'' @ [NL]"
  let ?t = "body_state False False (stamp_b @ stamp_c @ eoe_line)"
  have g: "fgets (ifile ?s) = Some (stamp_a, plain_coords @ eoe_line)" by code_simp
  have h: "fgets (ifile ?u) = Some (?l, soe_line @ eoe_line)" by code_simp
  have n: "takeWhile (\<lambda>c. c \<noteq> NUL) stamp_a = stamp_a" "takeWhile (\<lambda>c. c \<noteq> NUL) ?l = ?l"
    by code_simp+
  have a: "timestamp_line_spec exact stamp_a" by code_simp
  have b: "timestamp_line_spec exact (take 54 stamp_a @ [NL])" by code_simp
  have c: "\<not> timestamp_line_spec exact (take 54 stamp_a)" by code_simp
  have d: "\<not> timestamp_line_spec exact frame_line" by code_simp
  have e: "\<not> timestamp_line_spec exact ?l" by code_simp
  have sb: "timestamp_line_spec exact stamp_b" by code_simp
  have sc: "timestamp_line_spec exact stamp_c" by code_simp
  have 1: "scan exact ?s =
     (case sample_step exact (read_line stamp_a (plain_coords @ eoe_line) ?s) of
        Inl r \<Rightarrow> Inl r
      | Inr s2 \<Rightarrow> scan exact s2)"
    using timestamp_test_at_loop_head [of exact stamp_a "plain_coords @ eoe_line" ?s] g a
    by (simp only: n if_True simp_thms)
  have 2: "scan exact ?u = scan exact (detect_step exact (read_line ?l (soe_line @ eoe_line) ?u))"
    using timestamp_test_at_loop_head [of exact ?l "soe_line @ eoe_line" ?u] h e
    by (simp only: n if_False simp_thms)
  have fr: "is_equatorial ?t \<noteq> is_ecliptical ?t" by (simp add: body_state_def)
  have g1: "fgets (ifile ?t) = Some (stamp_b, stamp_c @ eoe_line)" by code_simp
  have g2: "fgets (stamp_c @ eoe_line) = Some (stamp_c, eoe_line)" by code_simp
  have ae: "at_end (out ?t)" by (simp add: at_end_def out_def body_state_def)
  have v: "state_vectors ?t" "data (out ?t) = []" by (simp_all add: out_def body_state_def)
  have tx: "sample_text exact ?t stamp_b stamp_c =
           ''2458765.50000458766.5000000000 2019.0000000000    0.0000000000'' @
           '' 458769.2500000000002019.000000000000  0.000000000000'' @ [NL]"
    by code_simp
  have 3: "\<exists>t'. sample_step exact ?t = Inr t' \<and> ifile t' = eoe_line \<and>
         data (out t') =
           ''2458765.50000458766.5000000000 2019.0000000000    0.0000000000'' @
           '' 458769.2500000000002019.000000000000  0.000000000000'' @ [NL]"
    using timestamp_test_at_loop_head
            [of exact _ _ _ ?t stamp_b "stamp_c @ eoe_line" stamp_c eoe_line] fr g1 g2 ae
    by (simp only: v tx if_True simp_thms append_Nil)
  show ?thesis by (intro conjI) (fact a b c d 1 2 sb sc 3)+
qed

subsection \<open>The step recorded in the header\<close>

text \<open>
  C3, as stated, fails for timestamp lines whose date does not start the line with seven
  integer digits. The fractional day is what \<^verbatim>\<open>atof\<close> reads at offset 7 of the line
  (lines 161 and 168), and the test of lines 143 to 146 also accepts a date written one
  column further right, after a space, with eight decimals: \<^verbatim>\<open>atof\<close> and \<^verbatim>\<open>atoi\<close> skip the
  space, and offset 7 is then the last integer digit. For the dates 2458765.5 and
  2458766.5 written so, one day apart, the fractions read are 5.5 and 6.5 and the header
  records the step \<open>(6.5 - 5.5) + (2458766 - 2458765) = 2\<close>.
\<close>

theorem shifted_date_counterexample:
  "timestamp_line_spec exact shifted_stamp_a \<and> timestamp_line_spec exact shifted_stamp_b \<and>
   atof exact shifted_stamp_a = 4917531 / 2 \<and> atof exact shifted_stamp_b = 4917533 / 2 \<and>
   atof exact shifted_stamp_b - atof exact shifted_stamp_a = 1 \<and>
   atof exact (drop 7 shifted_stamp_a) = 11 / 2 \<and> atof exact (drop 7 shifted_stamp_b) = 13 / 2 \<and>
   fst (main exact (report_env shifted_samples)) = 0 \<and>
   data (out (snd (main exact (report_env shifted_samples)))) =
     ''2458765.50000   2.0000000000    2 0,1,1'' @ [NL] @
     ''2458765.50000    1.0000000000    2.0000000000    3.0000000000'' @ [NL] @
     ''2458766.50000    1.0000000000    2.0000000000    3.0000000000'' @ [NL] @
     [NL, NL] @ ''Created from Horizons data by '' @ [SQ] @ ''jpl2mpc'' @ [SQ] @
     '', ver Jan  1 2024'' @ [NL] @ ''Reference frame : ICRF'' @ [NL]"
  by code_simp

text \<open>
  C3, as amended. In a run that ends with exit code 0 on a report of fewer than \<open>2\<^sup>3\<^sup>2\<close>
  bytes (so that the \<^verbatim>\<open>unsigned\<close> count of samples cannot wrap), let \<open>b1\<close> be the first
  timestamp line the scan meets and \<open>bs\<close> the ones after it. The output then starts with
  the header made of the Julian Date of \<open>b1\<close>, a step, and the number of timestamp lines
  met. The step is still the initial \<^verbatim>\<open>0.\<close> when there is one sample; from the second
  sample \<open>b2\<close> on it is the difference of the fractional days, which \<^verbatim>\<open>atof\<close> reads at offset
  7 of the two lines, plus the difference of the integer days, which \<^verbatim>\<open>atoi\<close> reads at
  their start (lines 168 and 169), whatever the samples after the second are. This is the
  Julian Date of \<open>b2\<close> minus that of \<open>b1\<close> under any reading \<open>v\<close> of the doubles as reals for
  which each of the two dates is its integer day plus the fraction read at offset 7 (a
  date that starts the line with seven integer digits), the difference of the integer
  days does not overflow, and the subtraction, the conversion and the addition of lines
  168 and 169 are exact.
\<close>

theorem step_size_from_first_two_samples:
  fixes v :: "'d \<Rightarrow> real"
  assumes m: "main M e = (0, sf)"
    and st: "stamps M (scan_start M e) = b1 # bs"
    and small: "length (input_bytes e) < 2 ^ 32"
  shows "\<exists>step tail.
           data (out sf) =
             header M (atof M (cstr_at b1 0)) step (word_of_nat (1 + length bs)) @ tail \<and>
           step =
             (case bs of
                [] \<Rightarrow> d_lit M ''0.''
              | b2 # later \<Rightarrow>
                  d_add M (d_sub M (atof M (cstr_at b2 7)) (atof M (cstr_at b1 7)))
                    (d_of_int M (sint (atoi M (cstr_at b2 0) - atoi M (cstr_at b1 0))))) \<and>
           (\<forall>b2 later f1 f2 k.
              bs = b2 # later \<and>
              f1 = atof M (cstr_at b1 7) \<and> f2 = atof M (cstr_at b2 7) \<and>
              k = sint (atoi M (cstr_at b2 0) - atoi M (cstr_at b1 0)) \<and>
              v (atof M (cstr_at b1 0)) = of_int (sint (atoi M (cstr_at b1 0))) + v f1 \<and>
              v (atof M (cstr_at b2 0)) = of_int (sint (atoi M (cstr_at b2 0))) + v f2 \<and>
              k = sint (atoi M (cstr_at b2 0)) - sint (atoi M (cstr_at b1 0)) \<and>
              v (d_of_int M k) = of_int k \<and>
              v (d_sub M f2 f1) = v f2 - v f1 \<and>
              v (d_add M (d_sub M f2 f1) (d_of_int M k)) = v (d_sub M f2 f1) + v (d_of_int M k)
              \<longrightarrow> v step = v (atof M (cstr_at b2 0)) - v (atof M (cstr_at b1 0)))"
proof -
  from main_success [OF m] obtain s3 where sc: "scan M (scan_start M e) = Inr s3"
    and f: "sf = finish M e s3" by blast
  have "length (ifile (scan_start M e)) < 2 ^ 32" using small by simp
  from scan_epoch_and_step [OF sc _ st this]
  have j: "jd0 s3 = atof M (cstr_at b1 0)"
    and p: "step_size s3 = (case bs of [] \<Rightarrow> d_lit M ''0.'' | b2 # later \<Rightarrow> step_between M b1 b2)"
    and n: "unat (n_written s3) = 1 + length bs"
    by (simp_all split: list.splits)
  have "n_written s3 = word_of_nat (unat (n_written s3))" by simp
  then have n': "n_written s3 = word_of_nat (1 + length bs)" using n by (simp only:)
  from finish_header [of M e s3] obtain tail
    where d: "data (out sf) = header M (jd0 s3) (step_size s3) (n_written s3) @ tail"
    using f by auto
  have 1: "data (out sf) =
             header M (atof M (cstr_at b1 0)) (step_size s3) (word_of_nat (1 + length bs)) @ tail"
    using d j n' by simp
  have 2: "step_size s3 =
             (case bs of
                [] \<Rightarrow> d_lit M ''0.''
              | b2 # later \<Rightarrow>
                  d_add M (d_sub M (atof M (cstr_at b2 7)) (atof M (cstr_at b1 7)))
                    (d_of_int M (sint (atoi M (cstr_at b2 0) - atoi M (cstr_at b1 0)))))"
    using p by (simp add: step_between_def split: list.splits)
  have 3: "\<forall>b2 later f1 f2 k.
              bs = b2 # later \<and>
              f1 = atof M (cstr_at b1 7) \<and> f2 = atof M (cstr_at b2 7) \<and>
              k = sint (atoi M (cstr_at b2 0) - atoi M (cstr_at b1 0)) \<and>
              v (atof M (cstr_at b1 0)) = of_int (sint (atoi M (cstr_at b1 0))) + v f1 \<and>
              v (atof M (cstr_at b2 0)) = of_int (sint (atoi M (cstr_at b2 0))) + v f2 \<and>
              k = sint (atoi M (cstr_at b2 0)) - sint (atoi M (cstr_at b1 0)) \<and>
              v (d_of_int M k) = of_int k \<and>
              v (d_sub M f2 f1) = v f2 - v f1 \<and>
              v (d_add M (d_sub M f2 f1) (d_of_int M k)) = v (d_sub M f2 f1) + v (d_of_int M k)
              \<longrightarrow> v (step_size s3) = v (atof M (cstr_at b2 0)) - v (atof M (cstr_at b1 0))"
  proof (intro allI impI, elim conjE)
    fix b2 later f1 f2 k
    assume bs: "bs = b2 # later"
      and f1: "f1 = atof M (cstr_at b1 7)" and f2: "f2 = atof M (cstr_at b2 7)"
      and k: "k = sint (atoi M (cstr_at b2 0) - atoi M (cstr_at b1 0))"
      and s1: "v (atof M (cstr_at b1 0)) = of_int (sint (atoi M (cstr_at b1 0))) + v f1"
      and s2: "v (atof M (cstr_at b2 0)) = of_int (sint (atoi M (cstr_at b2 0))) + v f2"
      and no: "k = sint (atoi M (cstr_at b2 0)) - sint (atoi M (cstr_at b1 0))"
      and vi: "v (d_of_int M k) = of_int k"
      and vs: "v (d_sub M f2 f1) = v f2 - v f1"
      and va: "v (d_add M (d_sub M f2 f1) (d_of_int M k)) = v (d_sub M f2 f1) + v (d_of_int M k)"
    have "step_size s3 = d_add M (d_sub M f2 f1) (d_of_int M k)"
      using 2 bs f1 f2 k by simp
    then have "v (step_size s3) = (v f2 - v f1) + of_int k" using va vs vi by simp
    also have "\<dots> = v (atof M (cstr_at b2 0)) - v (atof M (cstr_at b1 0))"
      using s1 s2 no by simp
    finally show "v (step_size s3) = v (atof M (cstr_at b2 0)) - v (atof M (cstr_at b1 0))" .
  qed
  show ?thesis using 1 2 3 by blast
qed

text \<open>
  Three samples at 2458765.5, 2458766.5 and 2458769.25: the header records the step 1,
  the difference of the first two dates, and the count 3.
\<close>

theorem step_size_from_first_two_samples_witness:
  "fst (main exact (report_env three_samples)) = 0 \<and>
   stamps exact (scan_start exact (report_env three_samples)) =
     [store_line stamp_a (store_line soe_line (store_line frame_line blank_buffer)),
      store_line stamp_b (store_line plain_coords
        (store_line stamp_a (store_line soe_line (store_line frame_line blank_buffer)))),
      store_line stamp_c (store_line plain_coords (store_line stamp_b (store_line plain_coords
        (store_line stamp_a (store_line soe_line (store_line frame_line blank_buffer))))))] \<and>
   (\<exists>step tail.
      data (out (snd (main exact (report_env three_samples))))
        = header exact (4917531 / 2) step 3 @ tail \<and>
      step = 1 \<and>
      real_of_rat step = real_of_rat (4917533 / 2) - real_of_rat (4917531 / 2)) \<and>
   header exact (4917531 / 2) 1 3 = ''2458765.50000   1.0000000000    3''"
proof -
  let ?e = "report_env three_samples"
  let ?b1 = "store_line stamp_a (store_line soe_line (store_line frame_line blank_buffer))"
  let ?b2 = "store_line stamp_b (store_line plain_coords ?b1)"
  let ?b3 = "store_line stamp_c (store_line plain_coords ?b2)"
  have f: "fst (main exact ?e) = 0" by code_simp
  then have m: "main exact ?e = (0, snd (main exact ?e))"
    by (metis prod.collapse)
  have st: "stamps exact (scan_start exact ?e) = ?b1 # [?b2, ?b3]" by code_simp
  have small: "length (input_bytes ?e) < 2 ^ 32"
    by (simp add: input_bytes_def report_env_def three_samples_def frame_line_def
          soe_line_def eoe_line_def stamp_a_def stamp_b_def stamp_c_def plain_coords_def)
  have a: "atof exact (cstr_at ?b1 0) = 4917531 / 2" "atof exact (cstr_at ?b2 0) = 4917533 / 2"
    "atof exact (cstr_at ?b1 7) = 1 / 2" "atof exact (cstr_at ?b2 7) = 1 / 2"
    by code_simp+
  have i: "sint (atoi exact (cstr_at ?b1 0)) = 2458765" "sint (atoi exact (cstr_at ?b2 0)) = 2458766"
    "sint (atoi exact (cstr_at ?b2 0) - atoi exact (cstr_at ?b1 0)) = 1"
    by code_simp+
  have h: "header exact (4917531 / 2) 1 3 = ''2458765.50000   1.0000000000    3''"
    by code_simp
  from step_size_from_first_two_samples [OF m st small, where v = real_of_rat]
  obtain step tail where
    1: "data (out (snd (main exact ?e)))
          = header exact (atof exact (cstr_at ?b1 0)) step (word_of_nat (1 + length [?b2, ?b3])) @ tail"
    and 2: "step = d_add exact (d_sub exact (atof exact (cstr_at ?b2 7)) (atof exact (cstr_at ?b1 7)))
                    (d_of_int exact (sint (atoi exact (cstr_at ?b2 0) - atoi exact (cstr_at ?b1 0))))"
    and 3: "\<forall>b2 later f1 f2 k.
              [?b2, ?b3] = b2 # later \<and>
              f1 = atof exact (cstr_at ?b1 7) \<and> f2 = atof exact (cstr_at b2 7) \<and>
              k = sint (atoi exact (cstr_at b2 0) - atoi exact (cstr_at ?b1 0)) \<and>
              real_of_rat (atof exact (cstr_at ?b1 0))
                = of_int (sint (atoi exact (cstr_at ?b1 0))) + real_of_rat f1 \<and>
              real_of_rat (atof exact (cstr_at b2 0))
                = of_int (sint (atoi exact (cstr_at b2 0))) + real_of_rat f2 \<and>
              k = sint (atoi exact (cstr_at b2 0)) - sint (atoi exact (cstr_at ?b1 0)) \<and>
              real_of_rat (d_of_int exact k) = of_int k \<and>
              real_of_rat (d_sub exact f2 f1) = real_of_rat f2 - real_of_rat f1 \<and>
              real_of_rat (d_add exact (d_sub exact f2 f1) (d_of_int exact k))
                = real_of_rat (d_sub exact f2 f1) + real_of_rat (d_of_int exact k)
              \<longrightarrow> real_of_rat step
                    = real_of_rat (atof exact (cstr_at b2 0)) - real_of_rat (atof exact (cstr_at ?b1 0))"
    by auto
  have "step = d_add exact (d_sub exact (1 / 2) (1 / 2)) (d_of_int exact 1)"
    using 2 by (simp only: a i)
  then have s1: "step = 1" by (simp add: exact_def)
  have d: "data (out (snd (main exact ?e))) = header exact (4917531 / 2) step 3 @ tail"
    using 1 by (simp only: a) simp
  have x: "real_of_rat (d_of_int exact 1) = of_int 1"
    "real_of_rat (d_sub exact (1 / 2) (1 / 2)) = real_of_rat (1 / 2) - real_of_rat (1 / 2)"
    "real_of_rat (d_add exact (d_sub exact (1 / 2) (1 / 2)) (d_of_int exact 1))
       = real_of_rat (d_sub exact (1 / 2) (1 / 2)) + real_of_rat (d_of_int exact 1)"
    by (simp_all add: exact_def)
  have y: "real_of_rat (4917531 / 2) = of_int 2458765 + real_of_rat (1 / 2)"
    "real_of_rat (4917533 / 2) = of_int 2458766 + real_of_rat (1 / 2)"
    by (simp_all add: of_rat_divide)
  have "real_of_rat step
          = real_of_rat (atof exact (cstr_at ?b2 0)) - real_of_rat (atof exact (cstr_at ?b1 0))"
    using 3 [rule_format, of ?b2 "[?b3]" "1 / 2" "1 / 2" 1] x y by (simp only: a i) simp
  then have r: "real_of_rat step = real_of_rat (4917533 / 2) - real_of_rat (4917531 / 2)"
    by (simp only: a)
  have "\<exists>step tail.
      data (out (snd (main exact ?e))) = header exact (4917531 / 2) step 3 @ tail \<and>
      step = 1 \<and>
      real_of_rat step = real_of_rat (4917533 / 2) - real_of_rat (4917531 / 2)"
    using d s1 r by blast
  then show ?thesis using f st h by (intro conjI) (simp_all only: list.simps)
qed

subsection \<open>Rotation of ecliptic vectors\<close>

text \<open>
  C4. With the ecliptic flag set, \<^verbatim>\<open>get_coords_from_buff\<close> turns the triple \<open>(x, y, z)\<close> it
  parsed into \<open>(x, y cos - z sin, y sin + z cos)\<close> with the two constants of the source,
  and the text that the sample body writes is made from the rotated triple of the
  position line, then scaled, and separately from the rotated triple of the velocity
  line, then scaled. The source writes the sum as \<open>z cos + y sin\<close>; the statement takes
  the addition of the platform to be commutative.
\<close>

theorem ecliptic_rotation:
  assumes comm: "\<And>a b. d_add M a b = d_add M b a"
    and ecl: "is_ecliptical s" and eq: "\<not> is_equatorial s"
    and g1: "fgets (ifile s) = Some (c1, r1)"
    and g2: "state_vectors s \<longrightarrow> fgets r1 = Some (c2, r2)"
    and e: "at_end (out s)"
  shows "get_coords_from_buff M b True = rotation_spec M (raw_coords M b) \<and>
         (\<exists>s'. sample_step M s = Inr s' \<and>
            data (out s') = data (out s) @ epoch_line s @
              position_record M (atof M (cstr_at (buff s) 0))
                (scale_position M (in_km_s s)
                   (rotation_spec M (raw_coords M (store_line c1 (buff s))))) @
              (if state_vectors s then
                 velocity_record M
                   (scale_velocity M (in_km_s s)
                      (rotation_spec M
                         (raw_coords M (store_line c2 (store_line c1 (buff s))))))
               else [NL]))"
proof -
  have r: "\<And>b. get_coords_from_buff M b True = rotation_spec M (raw_coords M b)"
    using comm by (simp add: get_coords_from_buff_def rotate_is_spec)
  have fr: "is_equatorial s \<noteq> is_ecliptical s" using ecl eq by simp
  from sample_step_appends [OF fr g1 g2 e, of M]
  obtain s' where "sample_step M s = Inr s'"
    and "data (out s') = data (out s) @ sample_text M s c1 c2" by blast
  then show ?thesis using r ecl by (auto simp: sample_text_def)
qed

text \<open>An ecliptic state-vector sample whose two lines both carry \<open>(1, 2, 3)\<close>.\<close>

theorem ecliptic_rotation_witness:
  "is_ecliptical (body_state True False (plain_coords @ plain_coords)) \<and>
   fgets (plain_coords @ plain_coords) = Some (plain_coords, plain_coords) \<and>
   fgets plain_coords = Some (plain_coords, []) \<and>
   raw_coords exact (store_line plain_coords (store_line stamp_a blank_buffer)) = (1, 2, 3) \<and>
   (\<exists>s'. sample_step exact (body_state True False (plain_coords @ plain_coords)) = Inr s' \<and>
         data (out s') =
           position_record exact (4917531 / 2)
             (rotation_spec exact
                (raw_coords exact (store_line plain_coords (store_line stamp_a blank_buffer)))) @
           velocity_record exact
             (rotation_spec exact
                (raw_coords exact
                   (store_line plain_coords
                      (store_line plain_coords (store_line stamp_a blank_buffer))))))"
proof -
  let ?s = "body_state True False (plain_coords @ plain_coords)"
  have comm: "\<And>a b. d_add exact a b = d_add exact b a" by (simp add: exact_def)
  have ecl: "is_ecliptical ?s" and eq: "\<not> is_equatorial ?s"
    by (simp_all add: body_state_def)
  have g1: "fgets (plain_coords @ plain_coords) = Some (plain_coords, plain_coords)"
    by code_simp
  have g1': "fgets (ifile ?s) = Some (plain_coords, plain_coords)"
    using g1 by (simp add: body_state_def)
  have g2: "fgets plain_coords = Some (plain_coords, [])" by code_simp
  then have g2': "state_vectors ?s \<longrightarrow> fgets plain_coords = Some (plain_coords, [])" by simp
  have e: "at_end (out ?s)" by (simp add: at_end_def out_def body_state_def)
  have r: "raw_coords exact (store_line plain_coords (store_line stamp_a blank_buffer)) = (1, 2, 3)"
    by code_simp
  have j: "atof exact (cstr_at (store_line stamp_a blank_buffer) 0) = 4917531 / 2"
    by code_simp
  have v: "data (out ?s) = []" "epoch_line ?s = []" "in_km_s ?s = False" "state_vectors ?s"
    "buff ?s = store_line stamp_a blank_buffer"
    by (simp_all add: out_def body_state_def epoch_line_def)
  from ecliptic_rotation [OF comm ecl eq g1' g2' e, of "store_line stamp_a blank_buffer"]
  show ?thesis using ecl g1 g2 r
    by (simp add: j v scale_position_def scale_velocity_def split: prod.splits)
qed

subsection \<open>Conversion of kilometres and seconds\<close>

text \<open>
  C5. With the km/s flag set, the position record of a sample is written from the three
  components of the position line each divided by \<^verbatim>\<open>1.495978707e+8\<close>, and the velocity
  record from the three components of the velocity line each multiplied by the quotient
  of \<^verbatim>\<open>24. * 60. * 60.\<close>, that is 86400, and \<^verbatim>\<open>1.495978707e+8\<close>. In particular, read
  through any valuation \<open>v\<close> of the doubles as reals under which each of the three
  divisions performed is correct to a relative error \<open>eps\<close> of at most \<open>10\<^sup>-\<^sup>7\<close>, the constant
  and the parsed \<open>x\<close> are within that error of 149597870.7, and the parsed \<open>y\<close> and \<open>z\<close>
  are 0, the position \<open>(149597870.7, 0, 0)\<close> becomes \<open>(1, 0, 0)\<close> within \<open>10\<^sup>-\<^sup>6\<close>. Nothing
  is assumed of any other division. (In IEEE double arithmetic the constant and \<open>x\<close> are
  the double nearest to 149597870.7, the first quotient is rounded to nearest, and the
  quotient of 0 is 0.)
\<close>

theorem km_unit_conversion:
  fixes v :: "'d \<Rightarrow> real" and eps :: real
  assumes km: "in_km_s s" and fr: "is_equatorial s \<noteq> is_ecliptical s"
    and g1: "fgets (ifile s) = Some (c1, r1)"
    and g2: "state_vectors s \<longrightarrow> fgets r1 = Some (c2, r2)"
    and e: "at_end (out s)"
    and p: "get_coords_from_buff M (store_line c1 (buff s)) (is_ecliptical s) = (x, y, z)"
    and q: "get_coords_from_buff M (store_line c2 (store_line c1 (buff s))) (is_ecliptical s)
              = (vx, vy, vz)"
    and au: "au = d_lit M ''1.495978707e+8''"
    and k: "k = d_div M (d_mul M (d_mul M (d_lit M ''24.'') (d_lit M ''60.'')) (d_lit M ''60.''))
                  (d_lit M ''1.495978707e+8'')"
  shows "(\<exists>s'. sample_step M s = Inr s' \<and>
            data (out s') = data (out s) @ epoch_line s @
              position_record M (atof M (cstr_at (buff s) 0))
                (d_div M x au, d_div M y au, d_div M z au) @
              (if state_vectors s
               then velocity_record M (d_mul M vx k, d_mul M vy k, d_mul M vz k)
               else [NL])) \<and>
         (\<bar>v (d_div M x au) - v x / v au\<bar> \<le> eps * \<bar>v x / v au\<bar> \<and>
          \<bar>v (d_div M y au) - v y / v au\<bar> \<le> eps * \<bar>v y / v au\<bar> \<and>
          \<bar>v (d_div M z au) - v z / v au\<bar> \<le> eps * \<bar>v z / v au\<bar> \<and>
          0 \<le> eps \<and> eps \<le> 1 / 10 ^ 7 \<and>
          \<bar>v au - 149597870.7\<bar> \<le> eps * 149597870.7 \<and>
          \<bar>v x - 149597870.7\<bar> \<le> eps * 149597870.7 \<and> v y = 0 \<and> v z = 0
            \<longrightarrow> \<bar>v (d_div M x au) - 1\<bar> \<le> 1 / 10 ^ 6 \<and>
                \<bar>v (d_div M y au)\<bar> \<le> 1 / 10 ^ 6 \<and> \<bar>v (d_div M z au)\<bar> \<le> 1 / 10 ^ 6)"
proof
  from sample_step_appends [OF fr g1 g2 e, of M]
  obtain s' where "sample_step M s = Inr s'"
    and "data (out s') = data (out s) @ sample_text M s c1 c2" by blast
  then show "\<exists>s'. sample_step M s = Inr s' \<and>
            data (out s') = data (out s) @ epoch_line s @
              position_record M (atof M (cstr_at (buff s) 0))
                (d_div M x au, d_div M y au, d_div M z au) @
              (if state_vectors s
               then velocity_record M (d_mul M vx k, d_mul M vy k, d_mul M vz k)
               else [NL])"
    using km p q au k
    by (auto simp: sample_text_def scale_position_def scale_velocity_def AU_IN_KM_def
          seconds_per_day_def)
next
  show "\<bar>v (d_div M x au) - v x / v au\<bar> \<le> eps * \<bar>v x / v au\<bar> \<and>
          \<bar>v (d_div M y au) - v y / v au\<bar> \<le> eps * \<bar>v y / v au\<bar> \<and>
          \<bar>v (d_div M z au) - v z / v au\<bar> \<le> eps * \<bar>v z / v au\<bar> \<and>
          0 \<le> eps \<and> eps \<le> 1 / 10 ^ 7 \<and>
          \<bar>v au - 149597870.7\<bar> \<le> eps * 149597870.7 \<and>
          \<bar>v x - 149597870.7\<bar> \<le> eps * 149597870.7 \<and> v y = 0 \<and> v z = 0
            \<longrightarrow> \<bar>v (d_div M x au) - 1\<bar> \<le> 1 / 10 ^ 6 \<and>
                \<bar>v (d_div M y au)\<bar> \<le> 1 / 10 ^ 6 \<and> \<bar>v (d_div M z au)\<bar> \<le> 1 / 10 ^ 6"
  proof (intro impI, elim conjE)
    assume qx: "\<bar>v (d_div M x au) - v x / v au\<bar> \<le> eps * \<bar>v x / v au\<bar>"
      and qy: "\<bar>v (d_div M y au) - v y / v au\<bar> \<le> eps * \<bar>v y / v au\<bar>"
      and qz: "\<bar>v (d_div M z au) - v z / v au\<bar> \<le> eps * \<bar>v z / v au\<bar>"
      and e0: "0 \<le> eps" and e1: "eps \<le> 1 / 10 ^ 7"
      and va: "\<bar>v au - 149597870.7\<bar> \<le> eps * 149597870.7"
      and vx: "\<bar>v x - 149597870.7\<bar> \<le> eps * 149597870.7"
      and vy: "v y = 0" and vz: "v z = 0"
    have A: "(0::real) < 149597870.7" by simp
    have X: "\<bar>v (d_div M x au) - 1\<bar> \<le> 1 / 10 ^ 6"
      by (rule rounded_ratio_near_one [OF e0 e1 A vx va qx])
    have Y: "\<bar>v (d_div M y au)\<bar> \<le> 1 / 10 ^ 6" using qy vy by simp
    have Z: "\<bar>v (d_div M z au)\<bar> \<le> 1 / 10 ^ 6" using qz vz by simp
    show "\<bar>v (d_div M x au) - 1\<bar> \<le> 1 / 10 ^ 6 \<and>
          \<bar>v (d_div M y au)\<bar> \<le> 1 / 10 ^ 6 \<and> \<bar>v (d_div M z au)\<bar> \<le> 1 / 10 ^ 6"
      using X Y Z by simp
  qed
qed

text \<open>
  A state-vector sample in km and km/s: the position \<open>(149597870.7, 0, 0)\<close> is written as
  \<open>(1, 0, 0)\<close> and the velocity \<open>(1, 0, 0)\<close> as 86400 / 149597870.7; the bound is taken at
  \<open>eps = 2\<^sup>-\<^sup>5\<^sup>3\<close>.
\<close>

theorem km_unit_conversion_witness:
  "in_km_s (body_state False True (km_coords @ km_velocity)) \<and>
   fgets (km_coords @ km_velocity) = Some (km_coords, km_velocity) \<and>
   fgets km_velocity = Some (km_velocity, []) \<and>
   get_coords_from_buff exact (store_line km_coords (store_line stamp_a blank_buffer)) False
     = (1495978707 / 10, 0, 0) \<and>
   get_coords_from_buff exact
     (store_line km_velocity (store_line km_coords (store_line stamp_a blank_buffer))) False
     = (1, 0, 0) \<and>
   d_lit exact ''1.495978707e+8'' = 1495978707 / 10 \<and>
   d_mul exact (d_mul exact (d_lit exact ''24.'') (d_lit exact ''60.'')) (d_lit exact ''60.'')
     = 86400 \<and>
   (\<exists>s'. sample_step exact (body_state False True (km_coords @ km_velocity)) = Inr s' \<and>
         data (out s') =
           ''2458765.50000    1.0000000000    0.0000000000    0.0000000000'' @
           ''   0.000577548327  0.000000000000  0.000000000000'' @ [NL]) \<and>
   \<bar>real_of_rat (d_div exact (1495978707 / 10) (1495978707 / 10)) - 1\<bar> \<le> 1 / 10 ^ 6"
proof -
  let ?s = "body_state False True (km_coords @ km_velocity)"
  let ?au = "d_lit exact ''1.495978707e+8''"
  let ?k = "d_div exact
              (d_mul exact (d_mul exact (d_lit exact ''24.'') (d_lit exact ''60.''))
                 (d_lit exact ''60.''))
              (d_lit exact ''1.495978707e+8'')"
  have km: "in_km_s ?s" and fr: "is_equatorial ?s \<noteq> is_ecliptical ?s"
    by (simp_all add: body_state_def)
  have g1: "fgets (km_coords @ km_velocity) = Some (km_coords, km_velocity)" by code_simp
  have g1': "fgets (ifile ?s) = Some (km_coords, km_velocity)"
    using g1 by (simp add: body_state_def)
  have g2: "fgets km_velocity = Some (km_velocity, [])" by code_simp
  then have g2': "state_vectors ?s \<longrightarrow> fgets km_velocity = Some (km_velocity, [])" by simp
  have e: "at_end (out ?s)" by (simp add: at_end_def out_def body_state_def)
  have v: "data (out ?s) = []" "epoch_line ?s = []" "state_vectors ?s"
    "buff ?s = store_line stamp_a blank_buffer" "is_ecliptical ?s = False"
    by (simp_all add: out_def body_state_def epoch_line_def)
  have p: "get_coords_from_buff exact (store_line km_coords (store_line stamp_a blank_buffer))
             False = (1495978707 / 10, 0, 0)"
    by code_simp
  have q: "get_coords_from_buff exact
             (store_line km_velocity (store_line km_coords (store_line stamp_a blank_buffer)))
             False = (1, 0, 0)"
    by code_simp
  have p': "get_coords_from_buff exact (store_line km_coords (buff ?s)) (is_ecliptical ?s)
              = (1495978707 / 10, 0, 0)"
    using p by (simp only: v)
  have q': "get_coords_from_buff exact (store_line km_velocity (store_line km_coords (buff ?s)))
              (is_ecliptical ?s) = (1, 0, 0)"
    using q by (simp only: v)
  have au: "?au = 1495978707 / 10" by code_simp
  have spd: "d_mul exact (d_mul exact (d_lit exact ''24.'') (d_lit exact ''60.''))
               (d_lit exact ''60.'') = 86400"
    by code_simp
  have t: "position_record exact (atof exact (cstr_at (store_line stamp_a blank_buffer) 0))
             (d_div exact (1495978707 / 10) ?au, d_div exact 0 ?au, d_div exact 0 ?au) @
           velocity_record exact (d_mul exact 1 ?k, d_mul exact 0 ?k, d_mul exact 0 ?k)
         = ''2458765.50000    1.0000000000    0.0000000000    0.0000000000'' @
           ''   0.000577548327  0.000000000000  0.000000000000'' @ [NL]"
    by code_simp
  have qx: "\<bar>real_of_rat (d_div exact (1495978707 / 10) ?au)
               - real_of_rat (1495978707 / 10) / real_of_rat ?au\<bar>
             \<le> (1 / 2 ^ 53) * \<bar>real_of_rat (1495978707 / 10) / real_of_rat ?au\<bar>"
    by (simp only: au) (simp add: exact_def of_rat_divide)
  have q0: "\<bar>real_of_rat (d_div exact 0 ?au) - real_of_rat 0 / real_of_rat ?au\<bar>
             \<le> (1 / 2 ^ 53) * \<bar>real_of_rat 0 / real_of_rat ?au\<bar>"
    by (simp only: au) (simp add: exact_def)
  have va: "\<bar>real_of_rat ?au - 149597870.7\<bar> \<le> (1 / 2 ^ 53) * 149597870.7"
    by (simp add: au of_rat_divide)
  have vx: "\<bar>real_of_rat (1495978707 / 10) - 149597870.7\<bar> \<le> (1 / 2 ^ 53) * 149597870.7"
    by (simp add: of_rat_divide)
  note c = km_unit_conversion [OF km fr g1' g2' e p' q' refl refl,
             where v = real_of_rat and eps = "1 / 2 ^ 53"]
  from c have c1: "\<exists>s'. sample_step exact ?s = Inr s' \<and>
         data (out s') =
           ''2458765.50000    1.0000000000    0.0000000000    0.0000000000'' @
           ''   0.000577548327  0.000000000000  0.000000000000'' @ [NL]"
    using t by (simp add: v)
  from c qx q0 va vx
  have "\<bar>real_of_rat (d_div exact (1495978707 / 10) ?au) - 1\<bar> \<le> 1 / 10 ^ 6"
    by simp
  then have c2: "\<bar>real_of_rat (d_div exact (1495978707 / 10) (1495978707 / 10)) - 1\<bar>
                   \<le> 1 / 10 ^ 6"
    by (simp only: au)
  show ?thesis by (intro conjI) (fact km g1 g2 p q au spd c1 c2)+
qed

subsection \<open>The layout of a coordinate line\<close>

text \<open>
  C6, as stated, fails for a line of one byte. The two offsets that choose the layout are
  offsets of the buffer; a line consisting of a newline fills offset 0 and its NUL fills
  offset 1, so offset 2 still holds what the line before left there. The same line
  \<^verbatim>\<open>"\n"\<close>, which has no \<^verbatim>\<open>X\<close>, is read with the labeled layout after a line with \<^verbatim>\<open>X\<close> at
  offset 2 and with the unlabeled layout after a line without: in the run on
  \<open>blank_velocity_report\<close> the velocity written for the blank line is the position
  \<open>(7, 8, 9)\<close> of the line before.
\<close>

theorem stale_label_counterexample:
  "CHR ''X'' \<notin> set [NL] \<and>
   field_offsets (store_line [NL] (store_line shifted_label_coords blank_buffer)) = (4, 30, 56) \<and>
   field_offsets (store_line [NL] (store_line plain_coords blank_buffer)) = (1, 24, 47) \<and>
   raw_coords exact (store_line [NL] (store_line shifted_label_coords blank_buffer)) = (7, 8, 9) \<and>
   fst (main exact (report_env blank_velocity_report)) = 0 \<and>
   data (out (snd (main exact (report_env blank_velocity_report)))) =
     ''2458765.50000   0.0000000000    1 0,1,1'' @ [NL] @
     ''2458765.50000    7.0000000000    8.0000000000    9.0000000000'' @
     ''   7.000000000000  8.000000000000  9.000000000000'' @ [NL] @
     [NL, NL] @ ''Created from Horizons data by '' @ [SQ] @ ''jpl2mpc'' @ [SQ] @
     '', ver Jan  1 2024'' @ [NL] @ ''Reference frame : ICRF'' @ [NL] @
     ''   VX    VY    VZ'' @ [NL]"
  by code_simp

text \<open>
  C6, as amended. \<^verbatim>\<open>get_coords_from_buff\<close> reads its three fields at the offsets 4, 30 and
  56 exactly when the byte at offset 1 or at offset 2 of the buffer is \<^verbatim>\<open>X\<close>, and at the
  offsets 1, 24 and 47 otherwise. For a line of at least two bytes these two bytes are
  bytes of the line (offset 2 is its NUL when the line has two bytes), so the layout
  depends on this line alone, whatever the buffer held before. A buffer with a label and
  a buffer without one whose fields, at their respective offsets, convert to the same
  three numbers give the same triple.
\<close>

theorem coordinate_layout:
  "raw_coords M b =
     (if b ! 1 = CHR ''X'' \<or> b ! 2 = CHR ''X''
      then (atof M (cstr_at b 4), atof M (cstr_at b 30), atof M (cstr_at b 56))
      else (atof M (cstr_at b 1), atof M (cstr_at b 24), atof M (cstr_at b 47))) \<and>
   (2 \<le> length chunk \<longrightarrow>
      field_offsets (store_line chunk old) =
        (if chunk ! 1 = CHR ''X'' \<or> (2 < length chunk \<and> chunk ! 2 = CHR ''X'')
         then (4, 30, 56) else (1, 24, 47))) \<and>
   ((b1 ! 1 = CHR ''X'' \<or> b1 ! 2 = CHR ''X'') \<and> b2 ! 1 \<noteq> CHR ''X'' \<and> b2 ! 2 \<noteq> CHR ''X'' \<and>
    atof M (cstr_at b1 4) = atof M (cstr_at b2 1) \<and>
    atof M (cstr_at b1 30) = atof M (cstr_at b2 24) \<and>
    atof M (cstr_at b1 56) = atof M (cstr_at b2 47)
      \<longrightarrow> get_coords_from_buff M b1 ecl = get_coords_from_buff M b2 ecl)"
proof -
  have "2 \<le> length chunk \<Longrightarrow>
      field_offsets (store_line chunk old) =
        (if chunk ! 1 = CHR ''X'' \<or> (2 < length chunk \<and> chunk ! 2 = CHR ''X'')
         then (4, 30, 56) else (1, 24, 47))"
  proof -
    assume l: "2 \<le> length chunk"
    then show ?thesis
      by (cases "length chunk = 2") (auto simp: field_offsets_def store_line_def nth_append)
  qed
  then show ?thesis
    by (auto simp: raw_coords_def field_offsets_def get_coords_from_buff_def)
qed

text \<open>A labeled and an unlabeled line carrying \<open>(1, 2, 3)\<close>.\<close>

theorem coordinate_layout_witness:
  "2 \<le> length labeled_coords \<and>
   field_offsets (store_line labeled_coords (store_line stamp_a blank_buffer)) = (4, 30, 56) \<and>
   field_offsets (store_line plain_coords (store_line stamp_a blank_buffer)) = (1, 24, 47) \<and>
   raw_coords exact (store_line labeled_coords (store_line stamp_a blank_buffer)) = (1, 2, 3) \<and>
   get_coords_from_buff exact (store_line labeled_coords (store_line stamp_a blank_buffer)) False
     = get_coords_from_buff exact (store_line plain_coords (store_line stamp_a blank_buffer)) False"
proof -
  let ?b1 = "store_line labeled_coords (store_line stamp_a blank_buffer)"
  let ?b2 = "store_line plain_coords (store_line stamp_a blank_buffer)"
  have l: "2 \<le> length labeled_coords" by (simp add: labeled_coords_def)
  have l2: "2 \<le> length plain_coords" by (simp add: plain_coords_def)
  have x1: "?b1 ! 1 = CHR ''X'' \<or> ?b1 ! 2 = CHR ''X''" by code_simp
  have x2: "?b2 ! 1 \<noteq> CHR ''X''" "?b2 ! 2 \<noteq> CHR ''X''" by code_simp+
  have c1: "labeled_coords ! 1 = CHR ''X''" by code_simp
  have c2: "plain_coords ! 1 \<noteq> CHR ''X''" "plain_coords ! 2 \<noteq> CHR ''X''" by code_simp+
  have a: "atof exact (cstr_at ?b1 4) = 1" "atof exact (cstr_at ?b1 30) = 2"
    "atof exact (cstr_at ?b1 56) = 3" "atof exact (cstr_at ?b2 1) = 1"
    "atof exact (cstr_at ?b2 24) = 2" "atof exact (cstr_at ?b2 47) = 3"
    by code_simp+
  note t1 = coordinate_layout [of exact ?b1 labeled_coords "store_line stamp_a blank_buffer"
              ?b1 ?b2 False]
  note t2 = coordinate_layout [of exact ?b2 plain_coords "store_line stamp_a blank_buffer"
              ?b1 ?b2 False]
  have f1: "field_offsets ?b1 = (4, 30, 56)" using t1 l c1 by simp
  have f2: "field_offsets ?b2 = (1, 24, 47)" using t2 l2 c2 by simp
  have r: "raw_coords exact ?b1 = (1, 2, 3)" using t1 x1 a by simp
  have g: "get_coords_from_buff exact ?b1 False = get_coords_from_buff exact ?b2 False"
    using t1 x1 x2 a by simp
  show ?thesis by (intro conjI) (fact l f1 f2 r g)+
qed

subsection \<open>Abort on an unresolved frame\<close>

text \<open>
  C7. When the scan loop, in any state, reads a line that passes the timestamp test while
  the equatorial and the ecliptic flag are equal (neither set, or both), the run returns
  \<open>-1\<close> at once: nothing is written but the frame message on the standard output, so
  no record is written for this line, and no later line is read.
\<close>

theorem frame_ambiguity_aborts:
  assumes "fgets (ifile s) = Some (chunk, rest)"
    and "is_timestamp M (buff (read_line chunk rest s))"
    and "is_equatorial s = is_ecliptical s"
  shows "scan M s = Inl (- 1, printf frame_message (read_line chunk rest s)) \<and>
         streams (printf frame_message (read_line chunk rest s))
           = (streams s)(Stdout := fput (streams s Stdout) frame_message)"
  using assms
  by (simp add: scan_timestamp sample_step_frame_error printf_def)

text \<open>
  A report without a frame line: the run returns \<open>-1\<close> and the output file holds the
  provisional header and its suffix only.
\<close>

theorem frame_ambiguity_aborts_witness:
  "is_timestamp exact
     (buff (read_line stamp_a (plain_coords @ eoe_line)
              (scan_start exact (report_env no_frame_report)))) \<and>
   scan exact (scan_start exact (report_env no_frame_report))
     = Inl (- 1, printf frame_message
                   (read_line stamp_a (plain_coords @ eoe_line)
                      (scan_start exact (report_env no_frame_report)))) \<and>
   fst (main exact (report_env no_frame_report)) = - 1 \<and>
   data (out (snd (main exact (report_env no_frame_report))))
     = ''      0.00000   0.0000000000    0 0,1,1''"
proof -
  let ?s = "scan_start exact (report_env no_frame_report)"
  have g: "fgets (ifile ?s) = Some (stamp_a, plain_coords @ eoe_line)" by code_simp
  have t: "is_timestamp exact (buff (read_line stamp_a (plain_coords @ eoe_line) ?s))"
    by code_simp
  have f: "is_equatorial ?s = is_ecliptical ?s" by simp
  have m: "fst (main exact (report_env no_frame_report)) = - 1 \<and>
           data (out (snd (main exact (report_env no_frame_report))))
             = ''      0.00000   0.0000000000    0 0,1,1''"
    by code_simp
  show ?thesis using frame_ambiguity_aborts [OF g t f] t m by simp
qed

subsection \<open>Exit codes of the three kinds of error\<close>

text \<open>
  C8, as stated, fails: the exit codes are not pairwise distinct. A run without arguments
  and a run on a report without a frame line end with different messages and the same
  exit code \<open>-1\<close>.
\<close>

theorem shared_exit_code_counterexample:
  "fst (main exact no_arguments_env) = - 1 \<and>
   data (streams (snd (main exact no_arguments_env)) Stdout) = usage_text \<and>
   fst (main exact (report_env no_frame_report)) = - 1 \<and>
   data (streams (snd (main exact (report_env no_frame_report))) Stdout) = frame_message \<and>
   usage_text \<noteq> frame_message"
  by code_simp

text \<open>
  C8, as amended. An argument or open error ends the run with the usage text and exit
  code \<open>-1\<close>; a timestamp line met with an unresolved frame ends it with the frame message
  and exit code \<open>-1\<close>; a missing coordinate line (the position line, or the velocity line
  when velocities are expected) ends it with the truncation message and exit code \<open>-2\<close>.
  Every return from the scan loop other than at the end of the report is one of the last
  two. The three messages differ; both codes are negative, the first two kinds share
  \<open>-1\<close>, and \<open>-2\<close> belongs to the truncated input alone.
\<close>

theorem error_exit_codes:
  "(argc e < 2 \<or> (1 < argc e \<and> input_file e = None) \<or> (2 < argc e \<and> output_opens e = False)
      \<longrightarrow> (\<exists>t. main M e = (- 1, printf usage_text t))) \<and>
   (fgets (ifile s) = Some (chunk, rest) \<and> is_timestamp M (buff (read_line chunk rest s)) \<and>
    is_equatorial s = is_ecliptical s
      \<longrightarrow> (\<exists>t. scan M s = Inl (- 1, printf frame_message t))) \<and>
   (fgets (ifile s) = Some (chunk, rest) \<and> is_timestamp M (buff (read_line chunk rest s)) \<and>
    is_equatorial s \<noteq> is_ecliptical s \<and> fgets rest = None
      \<longrightarrow> (\<exists>t. scan M s = Inl (- 2, printf truncated_message t))) \<and>
   (fgets (ifile s) = Some (chunk, rest) \<and> is_timestamp M (buff (read_line chunk rest s)) \<and>
    is_equatorial s \<noteq> is_ecliptical s \<and> state_vectors s \<and> fgets rest = Some (c1, r1) \<and>
    fgets r1 = None
      \<longrightarrow> (\<exists>t. scan M s = Inl (- 2, printf truncated_message t))) \<and>
   (scan M (scan_start M e) = Inl (c, s') \<longrightarrow>
      (c = - 1 \<and> (\<exists>t. s' = printf frame_message t)) \<or>
      (c = - 2 \<and> (\<exists>t. s' = printf truncated_message t))) \<and>
   usage_text \<noteq> frame_message \<and> usage_text \<noteq> truncated_message \<and>
   frame_message \<noteq> truncated_message"
proof -
  have "usage_text \<noteq> frame_message"
    by (simp add: usage_text_def frame_message_def)
  moreover have "usage_text \<noteq> truncated_message"
    by (simp add: usage_text_def truncated_message_def)
  moreover have "frame_message \<noteq> truncated_message"
    by (simp add: frame_message_def truncated_message_def)
  ultimately show ?thesis
    using main_usage [of e M] scan_exits [of M "scan_start M e" c s']
    by (auto simp: scan_timestamp sample_step_frame_error sample_step_truncated
          sample_step_velocity_truncated)
qed

text \<open>
  A run without arguments, a report without a frame line, and reports that end after a
  timestamp line or after a position line.
\<close>

theorem error_exit_codes_witness:
  "(\<exists>t. main exact no_arguments_env = (- 1, printf usage_text t)) \<and>
   (\<exists>t. scan exact (scan_start exact (report_env no_frame_report))
          = Inl (- 1, printf frame_message t)) \<and>
   (\<exists>t. scan exact (body_state False False stamp_a) = Inl (- 2, printf truncated_message t)) \<and>
   (\<exists>t. scan exact (body_state False False (stamp_a @ plain_coords))
          = Inl (- 2, printf truncated_message t)) \<and>
   fst (main exact (report_env truncated_report)) = - 2 \<and>
   data (streams (snd (main exact (report_env truncated_report))) Stdout) = truncated_message"
proof -
  let ?f = "scan_start exact (report_env no_frame_report)"
  let ?t = "body_state False False stamp_a"
  let ?v = "body_state False False (stamp_a @ plain_coords)"
  have a: "argc no_arguments_env < 2" by (simp add: no_arguments_env_def)
  have u: "\<exists>t. main exact no_arguments_env = (- 1, printf usage_text t)"
    using error_exit_codes [of no_arguments_env exact] a by simp
  have gf: "fgets (ifile ?f) = Some (stamp_a, plain_coords @ eoe_line)" by code_simp
  have tf: "is_timestamp exact (buff (read_line stamp_a (plain_coords @ eoe_line) ?f))"
    by code_simp
  have f: "\<exists>t. scan exact ?f = Inl (- 1, printf frame_message t)"
    using error_exit_codes [of _ exact ?f stamp_a "plain_coords @ eoe_line"] gf tf by simp
  have gt: "fgets (ifile ?t) = Some (stamp_a, [])" by code_simp
  have tt: "is_timestamp exact (buff (read_line stamp_a [] ?t))" by code_simp
  have rt: "is_equatorial ?t \<noteq> is_ecliptical ?t" by (simp add: body_state_def)
  have n: "fgets [] = None" by (simp add: fgets_def)
  have t: "\<exists>t. scan exact ?t = Inl (- 2, printf truncated_message t)"
    using error_exit_codes [of _ exact ?t stamp_a "[]"] gt tt rt n by simp
  have gv: "fgets (ifile ?v) = Some (stamp_a, plain_coords)" by code_simp
  have tv: "is_timestamp exact (buff (read_line stamp_a plain_coords ?v))" by code_simp
  have rv: "is_equatorial ?v \<noteq> is_ecliptical ?v" "state_vectors ?v"
    by (simp_all add: body_state_def)
  have gc: "fgets plain_coords = Some (plain_coords, [])" by code_simp
  have v: "\<exists>t. scan exact ?v = Inl (- 2, printf truncated_message t)"
    using error_exit_codes [of _ exact ?v stamp_a plain_coords plain_coords "[]"] gv tv rv gc n
    by simp
  have m: "fst (main exact (report_env truncated_report)) = - 2"
    "data (streams (snd (main exact (report_env truncated_report))) Stdout) = truncated_message"
    by code_simp+
  show ?thesis by (intro conjI) (fact u f t v m)+
qed

subsection \<open>Reads of the timestamp test\<close>

text \<open>
  C9. Evaluated left to right as \<^verbatim>\<open>&&\<close> does, with every read of the buffer at a fixed offset
  guarded, the timestamp test never reads outside the text before the NUL: the guarded
  test always yields a value, and it is the value of the test of the program. The reads
  at offsets 17 to 23, 42, 45 and 50 to 53 come after the length test, which leaves at
  least 55 characters of text.
\<close>

theorem timestamp_test_reads_inside_line:
  "is_timestamp_checked M b = Some (is_timestamp M b)"
  by (auto simp: is_timestamp_checked_def is_timestamp_def peek_def peek_range_def
        memcmp_eq_def Let_def)

subsection \<open>A report without samples\<close>

text \<open>
  C10. When both files open and no line of the report passes the timestamp test, whether
  or not a frame marker is present, the run ends with exit code 0 and the output is the
  header of epoch \<^verbatim>\<open>0.\<close>, step \<^verbatim>\<open>0.\<close> and count 0, the suffix \<^verbatim>\<open>" 0,1,1"\<close>, the trailer and the
  preamble of the report: the line that the first sample would add after the suffix is
  not there.
\<close>

theorem run_without_samples:
  assumes "1 < argc e" and "input_file e = Some inp"
    and "if 2 < argc e then output_opens e else True"
    and "\<forall>c \<in> set (chunks inp). \<not> timestamp_line_spec M (takeWhile (\<lambda>c. c \<noteq> NUL) c)"
  shows "\<exists>s. main M e = (0, s) \<and>
           data (out s) = header M (d_lit M ''0.'') (d_lit M ''0.'') 0 @ '' 0,1,1'' @
                          trailer (build_date e) @ preamble_text inp"
proof -
  have ib: "input_bytes e = inp" using assms(2) by (simp add: input_bytes_def)
  have "\<forall>c \<in> set (chunks (ifile (scan_start M e))).
          \<not> timestamp_line_spec M (takeWhile (\<lambda>c. c \<noteq> NUL) c)"
    using assms(4) ib by simp
  from scan_no_samples [OF this]
  obtain s' where sc: "scan M (scan_start M e) = Inr s'"
    and st: "streams s' = streams (scan_start M e)" and f: "ofile s' = ofile (scan_start M e)"
    and v: "n_written s' = 0" "jd0 s' = d_lit M ''0.''" "step_size s' = d_lit M ''0.''"
    by auto
  have o: "out s' = out (scan_start M e)" using st f by (simp add: out_def)
  then have e': "at_end (out s')" by (simp add: at_end_scan_start)
  have m: "main M e = (0, finish M e s')"
    by (simp add: main_opened [OF assms(1,2,3), of M] sc)
  have "data (out (finish M e s'))
          = header M (d_lit M ''0.'') (d_lit M ''0.'') 0 @ '' 0,1,1'' @
            trailer (build_date e) @ preamble_text inp"
    using finish_out [OF e', of M e] v o ib by (simp add: out_scan_start)
  then show ?thesis using m by simp
qed

text \<open>A report with a target line, no frame line and no sample.\<close>

theorem run_without_samples_witness:
  "(\<exists>s. main exact (report_env no_samples_report) = (0, s) \<and>
        data (out s) =
          ''      0.00000   0.0000000000    0 0,1,1'' @ [NL, NL] @
          ''Created from Horizons data by '' @ [SQ] @ ''jpl2mpc'' @ [SQ] @
          '', ver Jan  1 2024'' @ [NL] @ ''Target body name: Gaia (-139479)'' @ [NL])"
proof -
  let ?e = "report_env no_samples_report"
  have a: "1 < argc ?e" by (simp add: report_env_def)
  have i: "input_file ?e = Some no_samples_report" by (simp add: report_env_def)
  have o: "if 2 < argc ?e then output_opens ?e else True" by (simp add: report_env_def)
  have n: "\<forall>c \<in> set (chunks no_samples_report).
             \<not> timestamp_line_spec exact (takeWhile (\<lambda>c. c \<noteq> NUL) c)"
    by code_simp
  have t: "header exact (d_lit exact ''0.'') (d_lit exact ''0.'') 0 @ '' 0,1,1'' @
           trailer (build_date ?e) @ preamble_text no_samples_report =
          ''      0.00000   0.0000000000    0 0,1,1'' @ [NL, NL] @
          ''Created from Horizons data by '' @ [SQ] @ ''jpl2mpc'' @ [SQ] @
          '', ver Jan  1 2024'' @ [NL] @ ''Target body name: Gaia (-139479)'' @ [NL]"
    by code_simp
  show ?thesis using run_without_samples [OF a i o n] t by simp
qed

end
